theory Spec2Isabelle
  imports Main "HOL-Library.Word"
begin

unbundle bit_operations_syntax

section \<open>Data model of \<open>src/pvr/gpulib_if.c\<close>\<close>

text \<open>
  \<open>union PacketBuffer\<close> overlays sixteen 32-bit words with their 16-bit halves. It is an
  automatic variable of \<open>do_cmd_list\<close> that is never initialised, so it is modelled as an
  array given as a function from the word index; the initial contents are arbitrary.
  The target (SH-4) is little-endian: \<open>U2[2*i]\<close> is the low half of \<open>U4[i]\<close> and
  \<open>U2[2*i+1]\<close> its high half. Only indices below 16 exist in the C object.
\<close>

type_synonym PacketBuffer = "nat \<Rightarrow> 32 word"

definition U4 :: "PacketBuffer \<Rightarrow> nat \<Rightarrow> 32 word" where
  "U4 pbuffer i = pbuffer i"

definition U2 :: "PacketBuffer \<Rightarrow> nat \<Rightarrow> 16 word" where
  "U2 pbuffer i =
     (if even i then ucast (pbuffer (i div 2))
      else ucast (drop_bit 16 (pbuffer (i div 2))))"

text \<open>\<open>struct pvr_renderer\<close>; \<open>draw_dx\<close> and \<open>draw_dy\<close> are \<open>int16_t\<close> (read with \<open>sint\<close>),
  the two mask flags are one-bit bit-fields.\<close>

record pvr_renderer =
  gp1 :: "32 word"
  draw_x1 :: "16 word"
  draw_y1 :: "16 word"
  draw_x2 :: "16 word"
  draw_y2 :: "16 word"
  draw_dx :: "16 word"
  draw_dy :: "16 word"
  set_mask :: "1 word"
  check_mask :: "1 word"

text \<open>What reaches the tile accelerator through \<open>pvr_dr_get\<close> / \<open>pvr_dr_put\<close>: polygon
  headers and vertices. The vertex coordinates are kept as the integer that the code
  converts to \<open>float\<close> and multiplies by \<open>screen_fw\<close> / \<open>screen_fh\<close>; the floating-point
  scaling itself and the constant \<open>z = 1.0f\<close> are outside the model.\<close>

datatype vertex_flags = PVR_CMD_VERTEX | PVR_CMD_VERTEX_EOL

record pvr_vertex =
  flags :: vertex_flags
  argb :: "32 word"
  vx :: int
  vy :: int

datatype ta_packet = PolyHdr | Vertex pvr_vertex

text \<open>The global state the functions touch: the static \<open>pvr\<close>, the \<open>ex_regs\<close> array of
  gpulib's \<open>gpu\<close> and the packets committed so far.\<close>

record machine =
  pvr :: pvr_renderer
  ex_regs :: "nat \<Rightarrow> 32 word"
  ta :: "ta_packet list"

text \<open>
  Three names come from gpulib headers that are not part of these sources: the table
  \<open>cmd_lengths\<close> (\<open>unsigned char [256]\<close>, indexed by the opcode) and the macros
  \<open>gput_fill(w, h)\<close> and \<open>gput_sum(sum, cnt, new_cycles)\<close>, the latter assigning to its first
  two arguments. They are parameters of the model.
\<close>

record gpulib =
  cmd_lengths :: "32 word \<Rightarrow> nat"
  gput_fill :: "int \<Rightarrow> int \<Rightarrow> int"
  gput_sum :: "int \<Rightarrow> int \<Rightarrow> int \<Rightarrow> int \<times> int"

section \<open>Helpers\<close>

text \<open>\<open>__builtin_bswap32\<close>: the four bytes in reverse order.\<close>

definition bswap32 :: "32 word \<Rightarrow> 32 word" where
  "bswap32 w =
     push_bit 24 (w AND 0xff) OR push_bit 8 (w AND 0xff00)
     OR (drop_bit 8 w AND 0xff00) OR (drop_bit 24 w AND 0xff)"

text \<open>The expression \<open>__builtin_bswap32(w) >> 8\<close> of the three drawing handlers.\<close>

definition bgr_to_rgb :: "32 word \<Rightarrow> 32 word" where
  "bgr_to_rgb w = drop_bit 8 (bswap32 w)"

text \<open>\<open>x_to_pvr\<close> and \<open>y_to_pvr\<close> up to the conversion to \<open>float\<close>: the operands are promoted
  to \<open>int\<close>, so the sum cannot overflow.\<close>

definition x_to_pvr :: "pvr_renderer \<Rightarrow> 16 word \<Rightarrow> int" where
  "x_to_pvr p x = sint x + sint (draw_dx p) - uint (draw_x1 p)"

definition y_to_pvr :: "pvr_renderer \<Rightarrow> 16 word \<Rightarrow> int" where
  "y_to_pvr p y = sint y + sint (draw_dy p) - uint (draw_y1 p)"

text \<open>The two assignments of case \<open>0xe5\<close>: a 32-bit left shift followed by an arithmetic
  right shift of the \<open>int32_t\<close>, then the conversion to \<open>int16_t\<close>.\<close>

definition decode_draw_dx :: "32 word \<Rightarrow> 16 word" where
  "decode_draw_dx w = ucast (signed_drop_bit 21 (push_bit 21 w))"

definition decode_draw_dy :: "32 word \<Rightarrow> 16 word" where
  "decode_draw_dy w = ucast (signed_drop_bit 21 (push_bit 10 w))"

text \<open>The packing the specification describes for the set-drawing-offset word: opcode
  \<open>0xe5\<close> in the top byte, dx as an 11-bit two's-complement field in bits 0-10, dy
  in bits 11-21. This definition follows the specification, not the source.\<close>

definition spec_encode_offset :: "int \<Rightarrow> int \<Rightarrow> 32 word" where
  "spec_encode_offset dx dy =
     0xe5000000 OR (word_of_int dx AND 0x7ff) OR push_bit 11 (word_of_int dy AND 0x7ff)"

text \<open>\<open>cmd_clear_image\<close> only computes its four locals; the tuple is their final value
  \<open>(x0, y0, w0, h0)\<close> (\<open>int32_t\<close>). The \<open>uint16_t\<close> operands are promoted to \<open>int\<close> before
  the subtraction.\<close>

definition cmd_clear_image :: "PacketBuffer \<Rightarrow> 32 word \<times> 32 word \<times> 32 word \<times> 32 word" where
  "cmd_clear_image pbuffer =
    (let x0 = ucast (U2 pbuffer 2) AND 0x3ff;
         y0 = ucast (U2 pbuffer 3) AND 0x1ff;
         w0 = ((ucast (U2 pbuffer 4) - 1) AND 0x3ff) + 1;
         h0 = ((ucast (U2 pbuffer 5) - 1) AND 0x1ff) + 1;
         x0 = (x0 + 0xe) AND 0xf;
         w0 = (w0 + 0xe) AND 0xf
     in (x0, y0, w0, h0))"

text \<open>\<open>draw_line\<close>: the six vertices in the order of the loop.\<close>

definition draw_line ::
  "pvr_renderer \<Rightarrow> 16 word \<Rightarrow> 16 word \<Rightarrow> 32 word \<Rightarrow> 16 word \<Rightarrow> 16 word \<Rightarrow> 32 word
     \<Rightarrow> pvr_vertex list" where
  "draw_line p x0 y0 color0 x1 y1 color1 =
    (let up = (if y1 <s y0 then 1 else 0);
         nup = (if y1 <s y0 then 0 else 1);
         xcoords = [x0, x0, x0 + 1, x1, x1 + 1, x1 + 1];
         ycoords = [y0 + up, y0 + nup, y0 + up, y1 + nup, y1 + up, y1 + nup]
     in map (\<lambda>i. \<lparr> flags = (if i = 5 then PVR_CMD_VERTEX_EOL else PVR_CMD_VERTEX),
                     argb = (if i < 3 then color0 else color1),
                     vx = x_to_pvr p (xcoords ! i),
                     vy = y_to_pvr p (ycoords ! i) \<rparr>) [0..<6])"

section \<open>The command handlers of \<open>do_cmd_list\<close>\<close>

text \<open>The locals of \<open>do_cmd_list\<close> that live across loop iterations, with the global
  state.\<close>

record frame =
  pbuffer :: PacketBuffer
  cpu_cycles_sum :: int
  cpu_cycles :: int
  mach :: machine

text \<open>\<open>pvr_dr_get(); pvr_poly_compile(hdr, &cxt); pvr_dr_put(hdr)\<close> followed by the
  vertices of one primitive.\<close>

definition submit :: "pvr_vertex list \<Rightarrow> machine \<Rightarrow> machine" where
  "submit vs m = m\<lparr> ta := ta m @ PolyHdr # map Vertex vs \<rparr>"

text \<open>Cases \<open>0x20\<close>, \<open>0x28\<close>, \<open>0x30\<close>, \<open>0x38\<close>. The fold runs the \<open>for\<close> loop over \<open>i\<close>; its state
  is the read position \<open>buf\<close> in the packet, the current \<open>color\<close> and the vertices
  emitted so far.\<close>

definition poly_vertices :: "pvr_renderer \<Rightarrow> 32 word \<Rightarrow> PacketBuffer \<Rightarrow> pvr_vertex list" where
  "poly_vertices p cmd pb =
    (let multicolor = (cmd AND 0x10 \<noteq> 0);
         poly4 = (cmd AND 0x8 \<noteq> 0);
         nb = 3 + (if poly4 then 1 else 0 :: nat)
     in snd (snd (fold
          (\<lambda>i (buf, color, out).
             let (buf, color) =
                   (if i = 0 \<or> multicolor then (buf + 1, bgr_to_rgb (U4 pb buf))
                    else (buf, color));
                 val = U4 pb buf;
                 buf = buf + 1;
                 x = (ucast val :: 16 word);
                 y = (ucast (drop_bit 16 val) :: 16 word)
             in (buf, color,
                 out @ [\<lparr> flags = (if i = nb - 1 then PVR_CMD_VERTEX_EOL else PVR_CMD_VERTEX),
                          argb = color,
                          vx = x_to_pvr p x,
                          vy = y_to_pvr p y \<rparr>]))
          [0..<nb] (0, 0, []))))"

text \<open>Cases \<open>0x40\<close> and \<open>0x50\<close>: \<open>nb = 2\<close>, so the loop over the segments runs for
  \<open>i = 0\<close> only. The fold state is \<open>(buf, color, oldx, oldy, oldcolor, out)\<close>.\<close>

definition line_vertices :: "pvr_renderer \<Rightarrow> 32 word \<Rightarrow> PacketBuffer \<Rightarrow> pvr_vertex list" where
  "line_vertices p cmd pb =
    (let multicolor = (cmd AND 0x10 \<noteq> 0);
         nb = (2 :: nat);
         color = bgr_to_rgb (U4 pb 0);
         oldcolor = color;
         val = U4 pb 1;
         oldx = (ucast val :: 16 word);
         oldy = (ucast (drop_bit 16 val) :: 16 word)
     in snd (snd (snd (snd (snd (fold
          (\<lambda>i (buf, color, oldx, oldy, oldcolor, out).
             let (buf, color) =
                   (if multicolor then (buf + 1, bgr_to_rgb (U4 pb buf)) else (buf, color));
                 val = U4 pb buf;
                 buf = buf + 1;
                 x = (ucast val :: 16 word);
                 y = (ucast (drop_bit 16 val) :: 16 word);
                 vs = (if x <s oldx then draw_line p x y color oldx oldy oldcolor
                       else draw_line p oldx oldy oldcolor x y color)
             in (buf, color, x, y, color, out @ vs))
          [0..<nb - 1] (2, color, oldx, oldy, oldcolor, [])))))))"

text \<open>Case \<open>0x60\<close>. \<open>x[1]\<close> and \<open>y[1]\<close> are sums of two \<open>int16_t\<close> stored back into an
  \<open>int16_t\<close>.\<close>

definition rect_vertices :: "pvr_renderer \<Rightarrow> PacketBuffer \<Rightarrow> pvr_vertex list" where
  "rect_vertices p pb =
    (let color = bgr_to_rgb (U4 pb 0);
         x0 = (ucast (U4 pb 1) :: 16 word);
         y0 = (ucast (drop_bit 16 (U4 pb 1)) :: 16 word);
         x1 = x0 + ucast (U4 pb 2);
         y1 = y0 + ucast (drop_bit 16 (U4 pb 2));
         x = [x0, x1];
         y = [y0, y1]
     in map (\<lambda>i. \<lparr> flags = (if i = 3 then PVR_CMD_VERTEX_EOL else PVR_CMD_VERTEX),
                     argb = color,
                     vx = x_to_pvr p (x ! (if i mod 2 \<noteq> 0 then 1 else 0)),
                     vy = y_to_pvr p (y ! (if (i div 2) mod 2 \<noteq> 0 then 1 else 0)) \<rparr>)
            [0..<4])"

text \<open>The body of the \<open>switch\<close>, on a packet buffer that already holds the command.\<close>

definition exec_cmd :: "gpulib \<Rightarrow> 32 word \<Rightarrow> frame \<Rightarrow> frame" where
  "exec_cmd lib cmd fr =
    (let pb = pbuffer fr; m = mach fr; p = pvr m in
     if cmd = 0x02 then
       (let locals = cmd_clear_image pb;
            (s, c) = gput_sum lib (cpu_cycles_sum fr) (cpu_cycles fr)
                       (gput_fill lib (uint (U2 pb 4 AND 0x3ff)) (uint (U2 pb 5 AND 0x1ff)))
        in fr\<lparr> cpu_cycles_sum := s, cpu_cycles := c \<rparr>)
     else if cmd = 0xe1 then
       fr\<lparr> mach := m\<lparr> pvr := p\<lparr> gp1 := (gp1 p AND NOT 0x7ff) OR (U4 pb 0 AND 0x7ff) \<rparr> \<rparr> \<rparr>
     else if cmd = 0xe2 then fr
     else if cmd = 0xe3 then
       fr\<lparr> mach := m\<lparr> pvr := p\<lparr> draw_x1 := ucast (U4 pb 0 AND 0x3ff),
                                   draw_y1 := ucast (drop_bit 10 (U4 pb 0) AND 0x1ff) \<rparr> \<rparr> \<rparr>
     else if cmd = 0xe4 then
       fr\<lparr> mach := m\<lparr> pvr := p\<lparr> draw_x2 := ucast (U4 pb 0 AND 0x3ff),
                                   draw_y2 := ucast (drop_bit 10 (U4 pb 0) AND 0x1ff) \<rparr> \<rparr> \<rparr>
     else if cmd = 0xe5 then
       fr\<lparr> mach := m\<lparr> pvr := p\<lparr> draw_dx := decode_draw_dx (U4 pb 0),
                                   draw_dy := decode_draw_dy (U4 pb 0) \<rparr> \<rparr> \<rparr>
     else if cmd = 0xe6 then
       fr\<lparr> mach := m\<lparr> pvr := p\<lparr> set_mask := ucast (U4 pb 0 AND 0x1),
                                   check_mask := ucast (drop_bit 1 (U4 pb 0 AND 0x2)) \<rparr> \<rparr> \<rparr>
     else if cmd = 0x20 \<or> cmd = 0x28 \<or> cmd = 0x30 \<or> cmd = 0x38 then
       fr\<lparr> mach := submit (poly_vertices p cmd pb) m \<rparr>
     else if cmd = 0x40 \<or> cmd = 0x50 then
       fr\<lparr> mach := submit (line_vertices p cmd pb) m \<rparr>
     else if cmd = 0x60 then
       fr\<lparr> mach := submit (rect_vertices p pb) m \<rparr>
     else fr)"

text \<open>\<open>for (i = 0; i <= len; i++) pbuffer.U4[i] = list[i];\<close> with \<open>list\<close> the words from the
  current position to \<open>list_end\<close>. The caller has checked that \<open>1 + len\<close> words are there.\<close>

definition copy_packet :: "nat \<Rightarrow> 32 word list \<Rightarrow> PacketBuffer \<Rightarrow> PacketBuffer" where
  "copy_packet len list pb = fold (\<lambda>i pb. pb(i := list ! i)) [0..<Suc len] pb"

text \<open>The \<open>for\<close> loop of \<open>do_cmd_list\<close>. The list argument is the range from the pointer
  \<open>list\<close> to \<open>list_end\<close>; the second argument is the variable \<open>cmd\<close>. The result is the
  range left at the exit, the final \<open>cmd\<close> and the frame.\<close>

fun cmd_loop :: "gpulib \<Rightarrow> 32 word list \<Rightarrow> 32 word \<Rightarrow> frame \<Rightarrow> 32 word list \<times> 32 word \<times> frame" where
  "cmd_loop lib [] cmd fr = ([], cmd, fr)"
| "cmd_loop lib (w # ws) cmd fr =
    (if 1 + cmd_lengths lib (drop_bit 24 w) > length (w # ws) then (w # ws, - 1, fr)
     else cmd_loop lib (drop (cmd_lengths lib (drop_bit 24 w)) ws) (drop_bit 24 w)
            (exec_cmd lib (drop_bit 24 w)
               (fr\<lparr> pbuffer := copy_packet (cmd_lengths lib (drop_bit 24 w)) (w # ws) (pbuffer fr) \<rparr>)))"

text \<open>The end of \<open>do_cmd_list\<close>: \<open>gpu.ex_regs[1] &= ~0x1ff; gpu.ex_regs[1] |= pvr.gp1 & 0x1ff;\<close>\<close>

definition write_back :: "machine \<Rightarrow> machine" where
  "write_back m =
    (let regs = (ex_regs m)(1 := ex_regs m 1 AND NOT 0x1ff);
         regs = regs(1 := regs 1 OR (gp1 (pvr m) AND 0x1ff))
     in m\<lparr> ex_regs := regs \<rparr>)"

text \<open>What a call leaves behind: the return value and the three integers written through
  \<open>cycles_sum_out\<close>, \<open>cycles_last\<close> and \<open>last_cmd\<close> (assumed not to alias), and the global
  state.\<close>

record cmd_result =
  ret :: int
  cycles_sum_out :: int
  cycles_last :: int
  last_cmd :: int
  mach_out :: machine

text \<open>\<open>do_cmd_list\<close>. \<open>list_len\<close> is the length of the list; \<open>pb0\<close> is the indeterminate
  initial content of the local \<open>pbuffer\<close>; \<open>sum0\<close> and \<open>last0\<close> are \<open>*cycles_sum_out\<close> and
  \<open>*cycles_last\<close> at entry.\<close>

definition do_cmd_list :: "gpulib \<Rightarrow> 32 word list \<Rightarrow> PacketBuffer \<Rightarrow> int \<Rightarrow> int \<Rightarrow> machine \<Rightarrow> cmd_result" where
  "do_cmd_list lib list pb0 sum0 last0 m =
    (let (rest, cmd, fr) =
           cmd_loop lib list 0
             \<lparr> pbuffer = pb0, cpu_cycles_sum = 0, cpu_cycles = last0, mach = m \<rparr>
     in \<lparr> ret = int (length list) - int (length rest),
          cycles_sum_out = sum0 + cpu_cycles_sum fr,
          cycles_last = cpu_cycles fr,
          last_cmd = sint cmd,
          mach_out = write_back (mach fr) \<rparr>)"

section \<open>Commands, buffers and instances\<close>

text \<open>The opcode of a command word, \<open>*list >> 24\<close>.\<close>

definition opcode :: "32 word \<Rightarrow> 32 word" where
  "opcode w = drop_bit 24 w"

text \<open>One iteration of the loop body on a range that starts with a whole command: the copy
  into the packet buffer, then the \<open>switch\<close>.\<close>

definition dispatch :: "gpulib \<Rightarrow> frame \<Rightarrow> 32 word list \<Rightarrow> frame" where
  "dispatch lib fr c =
     exec_cmd lib (opcode (hd c))
       (fr\<lparr> pbuffer := copy_packet (cmd_lengths lib (opcode (hd c))) c (pbuffer fr) \<rparr>)"

text \<open>A fully-formed command: the opcode word followed by exactly as many operand words as
  the table gives for it.\<close>

definition complete_cmd :: "gpulib \<Rightarrow> 32 word list \<Rightarrow> bool" where
  "complete_cmd lib c \<longleftrightarrow> c \<noteq> [] \<and> length c = 1 + cmd_lengths lib (opcode (hd c))"

text \<open>A truncated command: at least the opcode word, but fewer words than the table asks
  for.\<close>

definition truncated_cmd :: "gpulib \<Rightarrow> 32 word list \<Rightarrow> bool" where
  "truncated_cmd lib c \<longleftrightarrow> c \<noteq> [] \<and> length c < 1 + cmd_lengths lib (opcode (hd c))"

text \<open>The highest index of \<open>pbuffer.U4\<close> that the handler of an opcode reads (from the
  handlers above: the fill reads \<open>U2[2..5]\<close>; a polygon reads one word per vertex and one
  or \<open>nb\<close> colours; a line two points and one or two colours; the rectangle three words; the
  \<open>0xe1\<close>..\<open>0xe6\<close> handlers read \<open>U4[0]\<close>).\<close>

definition handler_reads :: "32 word \<Rightarrow> nat" where
  "handler_reads cmd =
     (if cmd = 0x02 then 2
      else if cmd = 0x20 then 3
      else if cmd = 0x28 then 4
      else if cmd = 0x30 then 5
      else if cmd = 0x38 then 7
      else if cmd = 0x40 then 2
      else if cmd = 0x50 then 3
      else if cmd = 0x60 then 2
      else 0)"

text \<open>What the code takes for granted about the length table: no command is longer than the
  16 words of \<open>union PacketBuffer\<close>, and every handler finds the words it reads among those
  copied for its opcode.\<close>

definition table_fits :: "gpulib \<Rightarrow> bool" where
  "table_fits lib \<longleftrightarrow>
     (\<forall>cmd. cmd_lengths lib cmd \<le> 15 \<and> handler_reads cmd \<le> cmd_lengths lib cmd)"

text \<open>The packets a command adds to the tile accelerator, and the vertices among them.\<close>

definition emitted :: "gpulib \<Rightarrow> 32 word \<Rightarrow> frame \<Rightarrow> ta_packet list" where
  "emitted lib cmd fr = drop (length (ta (mach fr))) (ta (mach (exec_cmd lib cmd fr)))"

fun vertices_of :: "ta_packet list \<Rightarrow> pvr_vertex list" where
  "vertices_of [] = []"
| "vertices_of (PolyHdr # ps) = vertices_of ps"
| "vertices_of (Vertex v # ps) = v # vertices_of ps"

text \<open>\<open>renderer_init\<close>: \<open>memset(&pvr, 0, sizeof(pvr)); pvr.gp1 = 0x14802000;\<close>\<close>

definition renderer_init :: pvr_renderer where
  "renderer_init =
     \<lparr> gp1 = 0x14802000, draw_x1 = 0, draw_y1 = 0, draw_x2 = 0, draw_y2 = 0,
       draw_dx = 0, draw_dy = 0, set_mask = 0, check_mask = 0 \<rparr>"

text \<open>An instance of the three gpulib parameters, used to run the model on concrete
  buffers: the command lengths of the PlayStation GPU command set, a fill cost of
  \<open>23 + (4 + w / 32) * h\<close>, and \<open>sum += cnt; cnt = new_cycles\<close>.\<close>

definition psx_lengths :: "nat list" where
  "psx_lengths =
    [0, 0, 2, 0, 0, 0, 0, 0, 0, 0, 0, 0, 0, 0, 0, 0,
     0, 0, 0, 0, 0, 0, 0, 0, 0, 0, 0, 0, 0, 0, 0, 0,
     3, 3, 3, 3, 6, 6, 6, 6, 4, 4, 4, 4, 8, 8, 8, 8,
     5, 5, 5, 5, 8, 8, 8, 8, 7, 7, 7, 7, 11, 11, 11, 11,
     2, 2, 2, 2, 2, 2, 2, 2, 3, 3, 3, 3, 3, 3, 3, 3,
     3, 3, 3, 3, 3, 3, 3, 3, 4, 4, 4, 4, 4, 4, 4, 4,
     2, 2, 2, 2, 3, 3, 3, 3, 1, 1, 1, 1, 0, 0, 0, 0,
     1, 1, 1, 1, 2, 2, 2, 2, 1, 1, 1, 1, 2, 2, 2, 2,
     3, 3, 3, 3, 3, 3, 3, 3, 3, 3, 3, 3, 3, 3, 3, 3,
     3, 3, 3, 3, 3, 3, 3, 3, 3, 3, 3, 3, 3, 3, 3, 3,
     2, 2, 2, 2, 2, 2, 2, 2, 2, 2, 2, 2, 2, 2, 2, 2,
     2, 2, 2, 2, 2, 2, 2, 2, 2, 2, 2, 2, 2, 2, 2, 2,
     2, 2, 2, 2, 2, 2, 2, 2, 2, 2, 2, 2, 2, 2, 2, 2,
     2, 2, 2, 2, 2, 2, 2, 2, 2, 2, 2, 2, 2, 2, 2, 2,
     0, 0, 0, 0, 0, 0, 0, 0, 0, 0, 0, 0, 0, 0, 0, 0,
     0, 0, 0, 0, 0, 0, 0, 0, 0, 0, 0, 0, 0, 0, 0, 0]"

definition psx_gpulib :: gpulib where
  "psx_gpulib =
     \<lparr> cmd_lengths = (\<lambda>cmd. if unat cmd < 256 then psx_lengths ! unat cmd else 0),
       gput_fill = (\<lambda>w h. 23 + (4 + w div 32) * h),
       gput_sum = (\<lambda>sum cnt new_cycles. (sum + cnt, new_cycles)) \<rparr>"

text \<open>A machine right after \<open>renderer_init\<close>, with the status registers cleared and nothing
  submitted yet, and a packet buffer holding zeros.\<close>

definition machine_init :: machine where
  "machine_init = \<lparr> pvr = renderer_init, ex_regs = (\<lambda>_. 0), ta = [] \<rparr>"

definition pbuffer_zero :: PacketBuffer where
  "pbuffer_zero = (\<lambda>_. 0)"

section \<open>Comparing two runs\<close>

text \<open>A property of the macro \<open>gput_sum\<close> under which the cycle counters of a buffer
  processed in two calls add up to those of one call: the amount added to the sum does not
  depend on the sum, nor does the new count. (It holds for \<open>sum += cnt; cnt = new_cycles\<close>.)\<close>

definition sum_additive :: "gpulib \<Rightarrow> bool" where
  "sum_additive lib \<longleftrightarrow>
     (\<forall>s c n k. gput_sum lib (s + k) c n =
        (fst (gput_sum lib s c n) + k, snd (gput_sum lib s c n)))"

text \<open>Two frames that agree on \<open>pvr\<close> and on the submitted packets, whatever their packet
  buffers and status registers; if \<open>gput_sum\<close> is additive they also agree on the running
  count, and their running sums differ by \<open>k\<close>.\<close>

definition same_run :: "gpulib \<Rightarrow> int \<Rightarrow> frame \<Rightarrow> frame \<Rightarrow> bool" where
  "same_run lib k fr fr' \<longleftrightarrow>
     pvr (mach fr') = pvr (mach fr) \<and> ta (mach fr') = ta (mach fr)
     \<and> (sum_additive lib \<longrightarrow>
          cpu_cycles fr' = cpu_cycles fr \<and> cpu_cycles_sum fr' = cpu_cycles_sum fr + k)"

section \<open>Auxiliary facts\<close>

subsection \<open>The status register\<close>

lemma exec_cmd_ex_regs: "ex_regs (mach (exec_cmd lib cmd fr)) = ex_regs (mach fr)"
  by (simp add: exec_cmd_def submit_def Let_def split_def)

lemma cmd_loop_ex_regs:
  "ex_regs (mach (snd (snd (cmd_loop lib ws c fr)))) = ex_regs (mach fr)"
  by (induction lib ws c fr rule: cmd_loop.induct) (simp_all add: exec_cmd_ex_regs)

lemma write_back_reg1:
  "ex_regs (write_back m) =
     (ex_regs m)(1 := (ex_regs m 1 AND NOT 0x1ff) OR (gp1 (pvr m) AND 0x1ff))"
  by (simp add: write_back_def Let_def)

lemma write_back_pvr: "pvr (write_back m) = pvr m"
  by (simp add: write_back_def Let_def)

lemma write_back_ta: "ta (write_back m) = ta m"
  by (simp add: write_back_def Let_def)

lemma mask9: "(0x1ff :: 32 word) = mask 9"
  by (simp add: mask_eq_exp_minus_1)

lemma low9: "take_bit 9 ((a AND NOT 0x1ff) OR (g AND 0x1ff) :: 32 word) = take_bit 9 g"
  unfolding mask9 by (rule bit_word_eqI) (auto simp add: bit_simps)

lemma high9: "drop_bit 9 ((a AND NOT 0x1ff) OR (g AND 0x1ff) :: 32 word) = drop_bit 9 a"
  unfolding mask9 by (rule bit_word_eqI) (auto simp add: bit_simps dest: bit_imp_le_length)

subsection \<open>Bit fields\<close>

lemma decode_draw_dx_bits: "decode_draw_dx w = signed_take_bit 10 (ucast w)"
  unfolding decode_draw_dx_def
  by (rule bit_word_eqI) (auto simp add: bit_simps)

lemma decode_draw_dy_bits: "decode_draw_dy w = signed_take_bit 10 (ucast (drop_bit 11 w))"
  unfolding decode_draw_dy_def
  by (rule bit_word_eqI) (auto simp add: bit_simps)

lemma sint_dx_field: "sint (decode_draw_dx w) = sint (ucast w :: 11 word)"
  unfolding decode_draw_dx_bits
  by (rule bit_eqI) (auto simp add: bit_simps min_def)

lemma sint_dy_field: "sint (decode_draw_dy w) = sint (ucast (drop_bit 11 w) :: 11 word)"
  unfolding decode_draw_dy_bits
  by (rule bit_eqI) (auto simp add: bit_simps min_def)

lemma mask11: "(0x7ff :: 32 word) = mask 11"
  by (simp add: mask_eq_exp_minus_1)

lemma mask8: "(0xff :: 32 word) = mask 8"
  by (simp add: mask_eq_exp_minus_1)

lemma mask8_shifted: "(0xff00 :: 32 word) = push_bit 8 (mask 8)"
  by (simp add: mask_eq_exp_minus_1 push_bit_eq_mult)

lemma opcode_e5_shifted: "(0xe5000000 :: 'a :: semiring_bit_operations) = push_bit 24 0xe5"
  by (simp add: push_bit_eq_mult)

lemma opcode_e5_low_bits: "\<not> bit (0xe5000000 :: 'a :: semiring_bit_operations) (min 10 n)"
  by (subst opcode_e5_shifted, subst bit_push_bit_iff) simp

lemma opcode_e5_shifted13: "(1875968 :: 'a :: semiring_bit_operations) = push_bit 13 0xe5"
  by (simp add: push_bit_eq_mult)

lemma opcode_e5_mid_bits: "\<not> bit (1875968 :: 'a :: semiring_bit_operations) (min 10 n)"
  by (subst opcode_e5_shifted13, subst bit_push_bit_iff) simp

lemma spec_encode_offset_bits:
  "spec_encode_offset dx dy =
     0xe5000000 OR take_bit 11 (word_of_int dx) OR push_bit 11 (take_bit 11 (word_of_int dy))"
  unfolding spec_encode_offset_def mask11 by (simp add: take_bit_eq_mask)

lemma decode_encode_dx:
  assumes "- 1024 \<le> dx" "dx \<le> 1023"
  shows "sint (decode_draw_dx (spec_encode_offset dx dy)) = dx"
proof -
  have e: "signed_take_bit 10 dx = dx"
    using assms by (simp add: signed_take_bit_int_eq_self_iff)
  have "decode_draw_dx (spec_encode_offset dx dy) = (word_of_int (signed_take_bit 10 dx) :: 16 word)"
    unfolding decode_draw_dx_bits spec_encode_offset_bits
    by (rule bit_word_eqI) (auto simp add: bit_simps opcode_e5_low_bits)
  then have "sint (decode_draw_dx (spec_encode_offset dx dy)) = sint (word_of_int dx :: 16 word)"
    by (simp add: e)
  also have "\<dots> = dx"
    using assms by (simp add: sint_sbintrunc' signed_take_bit_int_eq_self_iff)
  finally show ?thesis .
qed

lemma decode_encode_dy:
  assumes "- 1024 \<le> dy" "dy \<le> 1023"
  shows "sint (decode_draw_dy (spec_encode_offset dx dy)) = dy"
proof -
  have e: "signed_take_bit 10 dy = dy"
    using assms by (simp add: signed_take_bit_int_eq_self_iff)
  have "decode_draw_dy (spec_encode_offset dx dy) = (word_of_int (signed_take_bit 10 dy) :: 16 word)"
    unfolding decode_draw_dy_bits spec_encode_offset_bits
    by (rule bit_word_eqI) (auto simp add: bit_simps opcode_e5_mid_bits)
  then have "sint (decode_draw_dy (spec_encode_offset dx dy)) = sint (word_of_int dy :: 16 word)"
    by (simp add: e)
  also have "\<dots> = dy"
    using assms by (simp add: sint_sbintrunc' signed_take_bit_int_eq_self_iff)
  finally show ?thesis .
qed

lemma opcode_spec_encode_offset: "opcode (spec_encode_offset dx dy) = 0xe5"
proof -
  have "drop_bit 24 (push_bit 24 0xe5 OR take_bit 11 (word_of_int dx)
          OR push_bit 11 (take_bit 11 (word_of_int dy)) :: 32 word) = 0xe5"
    by (rule bit_word_eqI) (auto simp add: bit_simps)
  then show ?thesis
    unfolding opcode_def spec_encode_offset_bits by (simp only: opcode_e5_shifted)
qed

lemma exec_e5:
  "pvr (mach (exec_cmd lib 0xe5 fr)) =
     (pvr (mach fr))\<lparr> draw_dx := decode_draw_dx (U4 (pbuffer fr) 0),
                       draw_dy := decode_draw_dy (U4 (pbuffer fr) 0) \<rparr>"
  by (simp add: exec_cmd_def Let_def)

subsection \<open>Drawing handlers\<close>

lemma upt_3: "[0..<3] = [0, 1, 2]" and upt_4: "[0..<4] = [0, 1, 2, 3]"
  and upt_6: "[0..<6] = [0, 1, 2, 3, 4, 5]"
  by (simp_all add: upt_rec)

lemma suc_towers:
  "Suc (Suc 0) = 2" "Suc (Suc (Suc 0)) = 3" "Suc (Suc (Suc (Suc 0))) = 4"
  "Suc (Suc (Suc (Suc (Suc 0)))) = 5" "Suc (Suc (Suc (Suc (Suc (Suc 0))))) = 6"
  "Suc (Suc (Suc (Suc (Suc (Suc (Suc 0)))))) = 7"
  by simp_all

lemma bgr_to_rgb_bytes:
  "bgr_to_rgb w =
     push_bit 16 (take_bit 8 w) OR push_bit 8 (take_bit 8 (drop_bit 8 w))
     OR take_bit 8 (drop_bit 16 w)"
  unfolding bgr_to_rgb_def bswap32_def mask8 mask8_shifted
  by (rule bit_word_eqI) (auto simp add: bit_simps)

lemma emitted_poly:
  "cmd = 0x20 \<or> cmd = 0x28 \<or> cmd = 0x30 \<or> cmd = 0x38 \<Longrightarrow>
   emitted lib cmd fr = PolyHdr # map Vertex (poly_vertices (pvr (mach fr)) cmd (pbuffer fr))"
  by (auto simp add: emitted_def exec_cmd_def submit_def Let_def)

lemma emitted_line:
  "cmd = 0x40 \<or> cmd = 0x50 \<Longrightarrow>
   emitted lib cmd fr = PolyHdr # map Vertex (line_vertices (pvr (mach fr)) cmd (pbuffer fr))"
  by (auto simp add: emitted_def exec_cmd_def submit_def Let_def)

lemma emitted_rect:
  "emitted lib 0x60 fr = PolyHdr # map Vertex (rect_vertices (pvr (mach fr)) (pbuffer fr))"
  by (simp add: emitted_def exec_cmd_def submit_def Let_def)

lemma vertices_of_map [simp]: "vertices_of (map Vertex vs) = vs"
  by (induction vs) simp_all

lemma draw_line_flags:
  "map flags (draw_line p x0 y0 c0 x1 y1 c1) =
     [PVR_CMD_VERTEX, PVR_CMD_VERTEX, PVR_CMD_VERTEX, PVR_CMD_VERTEX, PVR_CMD_VERTEX,
      PVR_CMD_VERTEX_EOL]"
  by (simp add: draw_line_def upt_6 Let_def)

lemma draw_line_argb:
  "map argb (draw_line p x0 y0 c0 x1 y1 c1) = [c0, c0, c0, c1, c1, c1]"
  by (simp add: draw_line_def upt_6 Let_def)

lemma poly_argb_20:
  "map argb (poly_vertices p 0x20 pb) =
     [bgr_to_rgb (U4 pb 0), bgr_to_rgb (U4 pb 0), bgr_to_rgb (U4 pb 0)]"
  by (simp add: poly_vertices_def upt_3 Let_def)

lemma poly_argb_28:
  "map argb (poly_vertices p 0x28 pb) =
     [bgr_to_rgb (U4 pb 0), bgr_to_rgb (U4 pb 0), bgr_to_rgb (U4 pb 0), bgr_to_rgb (U4 pb 0)]"
  by (simp add: poly_vertices_def upt_4 Let_def)

lemma poly_argb_30:
  "map argb (poly_vertices p 0x30 pb) =
     [bgr_to_rgb (U4 pb 0), bgr_to_rgb (U4 pb 2), bgr_to_rgb (U4 pb 4)]"
  by (simp add: poly_vertices_def upt_3 Let_def suc_towers)

lemma poly_argb_38:
  "map argb (poly_vertices p 0x38 pb) =
     [bgr_to_rgb (U4 pb 0), bgr_to_rgb (U4 pb 2), bgr_to_rgb (U4 pb 4), bgr_to_rgb (U4 pb 6)]"
  by (simp add: poly_vertices_def upt_4 Let_def suc_towers)

lemma line_vertices_40:
  "line_vertices p 0x40 pb =
     (if ucast (U4 pb 2) <s (ucast (U4 pb 1) :: 16 word)
      then draw_line p (ucast (U4 pb 2)) (ucast (drop_bit 16 (U4 pb 2))) (bgr_to_rgb (U4 pb 0))
             (ucast (U4 pb 1)) (ucast (drop_bit 16 (U4 pb 1))) (bgr_to_rgb (U4 pb 0))
      else draw_line p (ucast (U4 pb 1)) (ucast (drop_bit 16 (U4 pb 1))) (bgr_to_rgb (U4 pb 0))
             (ucast (U4 pb 2)) (ucast (drop_bit 16 (U4 pb 2))) (bgr_to_rgb (U4 pb 0)))"
  by (simp add: line_vertices_def Let_def)

lemma line_vertices_50:
  "line_vertices p 0x50 pb =
     (if ucast (U4 pb 3) <s (ucast (U4 pb 1) :: 16 word)
      then draw_line p (ucast (U4 pb 3)) (ucast (drop_bit 16 (U4 pb 3))) (bgr_to_rgb (U4 pb 2))
             (ucast (U4 pb 1)) (ucast (drop_bit 16 (U4 pb 1))) (bgr_to_rgb (U4 pb 0))
      else draw_line p (ucast (U4 pb 1)) (ucast (drop_bit 16 (U4 pb 1))) (bgr_to_rgb (U4 pb 0))
             (ucast (U4 pb 3)) (ucast (drop_bit 16 (U4 pb 3))) (bgr_to_rgb (U4 pb 2)))"
  by (simp add: line_vertices_def Let_def)

lemma rect_argb:
  "map argb (rect_vertices p pb) =
     [bgr_to_rgb (U4 pb 0), bgr_to_rgb (U4 pb 0), bgr_to_rgb (U4 pb 0), bgr_to_rgb (U4 pb 0)]"
  by (simp add: rect_vertices_def upt_4 Let_def)

subsection \<open>The loop on whole commands\<close>

lemma fold_copy:
  "fold (\<lambda>i pb. pb(i := ws ! i)) [0..<n] pb = (\<lambda>j. if j < n then ws ! j else pb j)"
  by (induction n) (auto simp add: fun_eq_iff less_Suc_eq)

lemma copy_packet_eq:
  "copy_packet len ws pb = (\<lambda>j. if j \<le> len then ws ! j else pb j)"
  by (simp add: copy_packet_def fold_copy less_Suc_eq_le del: upt_Suc)

lemma copy_packet_append:
  "length c = Suc len \<Longrightarrow> copy_packet len (c @ rest) pb = copy_packet len c pb"
  by (auto simp add: copy_packet_eq fun_eq_iff nth_append)

lemma cmd_loop_step:
  assumes "complete_cmd lib c"
  shows "cmd_loop lib (c @ rest) cmd fr = cmd_loop lib rest (opcode (hd c)) (dispatch lib fr c)"
proof -
  from assms obtain w ws where c: "c = w # ws"
    and len: "length ws = cmd_lengths lib (opcode w)"
    by (cases c) (auto simp add: complete_cmd_def)
  have cp: "copy_packet (cmd_lengths lib (opcode w)) (w # ws @ rest) (pbuffer fr) =
            copy_packet (cmd_lengths lib (opcode w)) (w # ws) (pbuffer fr)"
    using copy_packet_append [of "w # ws" "cmd_lengths lib (opcode w)" rest "pbuffer fr"] len
    by simp
  show ?thesis
    using len cp by (simp add: c dispatch_def opcode_def)
qed

lemma cmd_loop_complete:
  "\<forall>c \<in> set cmds. complete_cmd lib c \<Longrightarrow>
   cmd_loop lib (concat cmds @ rest) cmd fr =
     cmd_loop lib rest (foldl (\<lambda>_ c. opcode (hd c)) cmd cmds) (foldl (dispatch lib) fr cmds)"
proof (induction cmds arbitrary: cmd fr)
  case Nil
  then show ?case by simp
next
  case (Cons c cmds)
  then show ?case by (simp add: cmd_loop_step)
qed

lemma foldl_last_opcode:
  "foldl (\<lambda>_ c. opcode (hd c)) cmd cmds = (if cmds = [] then cmd else opcode (hd (last cmds)))"
  by (induction cmds arbitrary: cmd) auto

lemma cmd_loop_truncated:
  "truncated_cmd lib c \<Longrightarrow> cmd_loop lib c cmd fr = (c, - 1, fr)"
  by (cases c) (auto simp add: truncated_cmd_def opcode_def)

lemma cmd_loop_cmd_irrelevant:
  "ws \<noteq> [] \<Longrightarrow> cmd_loop lib ws cmd fr = cmd_loop lib ws cmd' fr"
  by (cases ws) simp_all

lemma length_concat_complete:
  "\<forall>c \<in> set cmds. complete_cmd lib c \<Longrightarrow>
   int (length (concat cmds)) = (\<Sum>c\<leftarrow>cmds. 1 + int (cmd_lengths lib (opcode (hd c))))"
  by (induction cmds) (auto simp add: complete_cmd_def)

lemma uint_opcode_less: "uint (opcode w) < 256"
proof -
  have "uint w < 2 ^ 32"
    using uint_lt2p [of w] by simp
  then have "uint w div 2 ^ 24 < 256"
    by simp
  then show ?thesis
    by (simp add: opcode_def drop_bit_eq_div uint_div)
qed

lemma sint_opcode: "sint (opcode w) = uint (opcode w)"
proof -
  have "- (2 ^ 31) \<le> uint (opcode w)"
    by (rule order_trans [of _ 0]) simp_all
  moreover have "uint (opcode w) < 2 ^ 31"
    using uint_opcode_less [of w] by simp
  ultimately show ?thesis
    unfolding sint_uint by (simp add: signed_take_bit_int_eq_self)
qed

lemma sint_opcode_not_incomplete: "sint (opcode w) \<noteq> - 1"
  unfolding sint_opcode using uint_ge_0 [of "opcode w"] by linarith

lemma do_cmd_list_complete:
  assumes "\<forall>c \<in> set cmds. complete_cmd lib c"
  shows "do_cmd_list lib (concat cmds) pb0 sum0 last0 m =
    (let fr = foldl (dispatch lib)
                \<lparr> pbuffer = pb0, cpu_cycles_sum = 0, cpu_cycles = last0, mach = m \<rparr> cmds
     in \<lparr> ret = int (length (concat cmds)),
          cycles_sum_out = sum0 + cpu_cycles_sum fr,
          cycles_last = cpu_cycles fr,
          last_cmd = (if cmds = [] then 0 else sint (opcode (hd (last cmds)))),
          mach_out = write_back (mach fr) \<rparr>)"
  using cmd_loop_complete [OF assms, of "[]"]
  by (simp add: do_cmd_list_def Let_def foldl_last_opcode)

subsection \<open>What a handler changes\<close>

lemma exec_cmd_pvr_other:
  "cmd \<noteq> 0xe1 \<Longrightarrow> cmd \<noteq> 0xe3 \<Longrightarrow> cmd \<noteq> 0xe4 \<Longrightarrow> cmd \<noteq> 0xe5 \<Longrightarrow> cmd \<noteq> 0xe6 \<Longrightarrow>
   pvr (mach (exec_cmd lib cmd fr)) = pvr (mach fr)"
  by (simp add: exec_cmd_def submit_def Let_def split_def)

lemma exec_cmd_gp1: "cmd \<noteq> 0xe1 \<Longrightarrow> gp1 (pvr (mach (exec_cmd lib cmd fr))) = gp1 (pvr (mach fr))"
  by (simp add: exec_cmd_def submit_def Let_def split_def)

lemma exec_cmd_clip1:
  "cmd \<noteq> 0xe3 \<Longrightarrow> draw_x1 (pvr (mach (exec_cmd lib cmd fr))) = draw_x1 (pvr (mach fr))
     \<and> draw_y1 (pvr (mach (exec_cmd lib cmd fr))) = draw_y1 (pvr (mach fr))"
  by (simp add: exec_cmd_def submit_def Let_def split_def)

lemma exec_cmd_clip2:
  "cmd \<noteq> 0xe4 \<Longrightarrow> draw_x2 (pvr (mach (exec_cmd lib cmd fr))) = draw_x2 (pvr (mach fr))
     \<and> draw_y2 (pvr (mach (exec_cmd lib cmd fr))) = draw_y2 (pvr (mach fr))"
  by (simp add: exec_cmd_def submit_def Let_def split_def)

lemma exec_cmd_offset:
  "cmd \<noteq> 0xe5 \<Longrightarrow> draw_dx (pvr (mach (exec_cmd lib cmd fr))) = draw_dx (pvr (mach fr))
     \<and> draw_dy (pvr (mach (exec_cmd lib cmd fr))) = draw_dy (pvr (mach fr))"
  by (simp add: exec_cmd_def submit_def Let_def split_def)

lemma exec_cmd_mask:
  "cmd \<noteq> 0xe6 \<Longrightarrow> set_mask (pvr (mach (exec_cmd lib cmd fr))) = set_mask (pvr (mach fr))
     \<and> check_mask (pvr (mach (exec_cmd lib cmd fr))) = check_mask (pvr (mach fr))"
  by (simp add: exec_cmd_def submit_def Let_def split_def)

lemma exec_cmd_cycles_other:
  "cmd \<noteq> 0x02 \<Longrightarrow> cpu_cycles_sum (exec_cmd lib cmd fr) = cpu_cycles_sum fr
     \<and> cpu_cycles (exec_cmd lib cmd fr) = cpu_cycles fr"
  by (simp add: exec_cmd_def submit_def Let_def split_def)

lemma exec_cmd_fill:
  "exec_cmd lib 0x02 fr =
     fr\<lparr> cpu_cycles_sum := fst (gput_sum lib (cpu_cycles_sum fr) (cpu_cycles fr)
                (gput_fill lib (uint (U2 (pbuffer fr) 4 AND 0x3ff)) (uint (U2 (pbuffer fr) 5 AND 0x1ff)))),
         cpu_cycles := snd (gput_sum lib (cpu_cycles_sum fr) (cpu_cycles fr)
                (gput_fill lib (uint (U2 (pbuffer fr) 4 AND 0x3ff)) (uint (U2 (pbuffer fr) 5 AND 0x1ff)))) \<rparr>"
  by (simp add: exec_cmd_def Let_def split_def)

lemma dispatch_pvr_other:
  "opcode (hd c) \<notin> {0xe1, 0xe3, 0xe4, 0xe5, 0xe6} \<Longrightarrow> pvr (mach (dispatch lib fr c)) = pvr (mach fr)"
  by (simp add: dispatch_def exec_cmd_pvr_other)

lemma dispatch_cycles_other:
  "opcode (hd c) \<noteq> 0x02 \<Longrightarrow> cpu_cycles_sum (dispatch lib fr c) = cpu_cycles_sum fr
     \<and> cpu_cycles (dispatch lib fr c) = cpu_cycles fr"
  by (simp add: dispatch_def exec_cmd_cycles_other)

lemma foldl_dispatch_pvr:
  "\<forall>c \<in> set cmds. opcode (hd c) \<notin> {0xe1, 0xe3, 0xe4, 0xe5, 0xe6} \<Longrightarrow>
   pvr (mach (foldl (dispatch lib) fr cmds)) = pvr (mach fr)"
  by (induction cmds arbitrary: fr) (simp_all add: dispatch_pvr_other)

lemma foldl_dispatch_cycles:
  "\<forall>c \<in> set cmds. opcode (hd c) \<noteq> 0x02 \<Longrightarrow>
   cpu_cycles_sum (foldl (dispatch lib) fr cmds) = cpu_cycles_sum fr
   \<and> cpu_cycles (foldl (dispatch lib) fr cmds) = cpu_cycles fr"
  by (induction cmds arbitrary: fr) (simp_all add: dispatch_cycles_other)

subsection \<open>The instance\<close>

lemma length_psx_lengths: "length psx_lengths = 256"
  by (simp add: psx_lengths_def)

lemma psx_lengths_bound: "\<forall>n \<in> set psx_lengths. n \<le> 15"
  by (simp add: psx_lengths_def)

lemma psx_cmd_lengths_bound: "cmd_lengths psx_gpulib cmd \<le> 15"
  using psx_lengths_bound length_psx_lengths
  by (simp add: psx_gpulib_def)

lemma psx_cmd_lengths_values:
  "cmd_lengths psx_gpulib 0x00 = 0" "cmd_lengths psx_gpulib 0x02 = 2"
  "cmd_lengths psx_gpulib 0x20 = 3" "cmd_lengths psx_gpulib 0x28 = 4"
  "cmd_lengths psx_gpulib 0x30 = 5" "cmd_lengths psx_gpulib 0x38 = 7"
  "cmd_lengths psx_gpulib 0x40 = 2" "cmd_lengths psx_gpulib 0x50 = 3"
  "cmd_lengths psx_gpulib 0x60 = 2" "cmd_lengths psx_gpulib 0xe1 = 0"
  "cmd_lengths psx_gpulib 0xe2 = 0" "cmd_lengths psx_gpulib 0xe5 = 0"
  by (simp_all add: psx_gpulib_def psx_lengths_def)

lemma psx_table_fits: "table_fits psx_gpulib"
  unfolding table_fits_def
  by (auto simp add: psx_cmd_lengths_bound handler_reads_def psx_cmd_lengths_values)

subsection \<open>Two runs on the same words\<close>

lemma poly_vertices_cong:
  assumes "cmd = 0x20 \<or> cmd = 0x28 \<or> cmd = 0x30 \<or> cmd = 0x38"
    and "\<forall>i \<le> handler_reads cmd. pb i = pb' i"
  shows "poly_vertices p cmd pb = poly_vertices p cmd pb'"
  using assms
  by (elim disjE) (simp_all add: poly_vertices_def handler_reads_def upt_3 upt_4 Let_def U4_def)

lemma line_vertices_cong:
  assumes "cmd = 0x40 \<or> cmd = 0x50"
    and "\<forall>i \<le> handler_reads cmd. pb i = pb' i"
  shows "line_vertices p cmd pb = line_vertices p cmd pb'"
  using assms
  by (elim disjE) (simp_all add: line_vertices_def handler_reads_def Let_def U4_def)

lemma rect_vertices_cong:
  assumes "\<forall>i \<le> handler_reads 0x60. pb i = pb' i"
  shows "rect_vertices p pb = rect_vertices p pb'"
  using assms
  by (simp add: rect_vertices_def handler_reads_def Let_def U4_def)

lemma exec_cmd_pvr_cong:
  assumes "pvr (mach fr') = pvr (mach fr)" and "pbuffer fr' 0 = pbuffer fr 0"
  shows "pvr (mach (exec_cmd lib cmd fr')) = pvr (mach (exec_cmd lib cmd fr))"
  using assms by (simp add: exec_cmd_def submit_def Let_def split_def U4_def)

lemma exec_cmd_ta_cong:
  assumes "pvr (mach fr') = pvr (mach fr)" and "ta (mach fr') = ta (mach fr)"
    and "\<forall>i \<le> handler_reads cmd. pbuffer fr i = pbuffer fr' i"
  shows "ta (mach (exec_cmd lib cmd fr')) = ta (mach (exec_cmd lib cmd fr))"
proof -
  consider (poly) "cmd = 0x20 \<or> cmd = 0x28 \<or> cmd = 0x30 \<or> cmd = 0x38"
    | (line) "cmd = 0x40 \<or> cmd = 0x50"
    | (rect) "cmd = 0x60"
    | (other) "cmd \<noteq> 0x20" "cmd \<noteq> 0x28" "cmd \<noteq> 0x30" "cmd \<noteq> 0x38" "cmd \<noteq> 0x40"
        "cmd \<noteq> 0x50" "cmd \<noteq> 0x60"
    by blast
  then show ?thesis
  proof cases
    case poly
    from poly_vertices_cong [OF poly assms(3), of "pvr (mach fr)"] poly assms(1,2)
    show ?thesis
      by (auto simp add: exec_cmd_def submit_def Let_def)
  next
    case line
    from line_vertices_cong [OF line assms(3), of "pvr (mach fr)"] line assms(1,2)
    show ?thesis
      by (auto simp add: exec_cmd_def submit_def Let_def)
  next
    case rect
    from rect_vertices_cong [of "pbuffer fr" "pbuffer fr'" "pvr (mach fr)"] rect assms
    show ?thesis
      by (simp add: exec_cmd_def submit_def Let_def)
  next
    case other
    with assms(2) show ?thesis
      by (simp add: exec_cmd_def Let_def split_def)
  qed
qed

lemma exec_cmd_cycles_cong:
  assumes "sum_additive lib"
    and "cpu_cycles fr' = cpu_cycles fr" and "cpu_cycles_sum fr' = cpu_cycles_sum fr + k"
    and "\<forall>i \<le> handler_reads cmd. pbuffer fr i = pbuffer fr' i"
  shows "cpu_cycles (exec_cmd lib cmd fr') = cpu_cycles (exec_cmd lib cmd fr)
       \<and> cpu_cycles_sum (exec_cmd lib cmd fr') = cpu_cycles_sum (exec_cmd lib cmd fr) + k"
proof (cases "cmd = 0x02")
  case True
  from assms(4) True have "pbuffer fr 2 = pbuffer fr' 2"
    by (simp add: handler_reads_def)
  then have u: "U2 (pbuffer fr') 4 = U2 (pbuffer fr) 4" "U2 (pbuffer fr') 5 = U2 (pbuffer fr) 5"
    by (simp_all add: U2_def)
  from assms(1) have add: "gput_sum lib (s + k) c n =
        (fst (gput_sum lib s c n) + k, snd (gput_sum lib s c n))" for s c n
    by (simp add: sum_additive_def)
  show ?thesis
    unfolding True exec_cmd_fill using assms(2,3) by (simp add: u add)
next
  case False
  then show ?thesis
    using assms(2,3) by (simp add: exec_cmd_cycles_other)
qed

lemma exec_cmd_same_run:
  assumes "table_fits lib" and "same_run lib k fr fr'"
    and "\<forall>i \<le> cmd_lengths lib cmd. pbuffer fr i = pbuffer fr' i"
  shows "same_run lib k (exec_cmd lib cmd fr) (exec_cmd lib cmd fr')"
proof -
  from assms(1) have "handler_reads cmd \<le> cmd_lengths lib cmd"
    by (simp add: table_fits_def)
  with assms(3) have r: "\<forall>i \<le> handler_reads cmd. pbuffer fr i = pbuffer fr' i"
    by auto
  from assms(3) have z: "pbuffer fr' 0 = pbuffer fr 0"
    by simp
  from assms(2) have p: "pvr (mach fr') = pvr (mach fr)" and t: "ta (mach fr') = ta (mach fr)"
    by (simp_all add: same_run_def)
  have c: "cpu_cycles (exec_cmd lib cmd fr') = cpu_cycles (exec_cmd lib cmd fr)
       \<and> cpu_cycles_sum (exec_cmd lib cmd fr') = cpu_cycles_sum (exec_cmd lib cmd fr) + k"
    if "sum_additive lib"
    using that assms(2) by (intro exec_cmd_cycles_cong [OF _ _ _ r]) (simp_all add: same_run_def)
  show ?thesis
    unfolding same_run_def
    using exec_cmd_pvr_cong [OF p z, of lib cmd] exec_cmd_ta_cong [OF p t r, of lib] c
    by simp
qed

lemma same_run_pbuffer:
  "same_run lib k (fr\<lparr> pbuffer := pb \<rparr>) (fr'\<lparr> pbuffer := pb' \<rparr>) = same_run lib k fr fr'"
  by (simp add: same_run_def)

lemma cmd_loop_same_run:
  "table_fits lib \<Longrightarrow> same_run lib k fr fr' \<Longrightarrow>
    fst (cmd_loop lib ws cmd fr') = fst (cmd_loop lib ws cmd fr)
    \<and> fst (snd (cmd_loop lib ws cmd fr')) = fst (snd (cmd_loop lib ws cmd fr))
    \<and> same_run lib k (snd (snd (cmd_loop lib ws cmd fr))) (snd (snd (cmd_loop lib ws cmd fr')))"
proof (induction lib ws cmd fr arbitrary: fr' rule: cmd_loop.induct)
  case (1 lib cmd fr)
  then show ?case by simp
next
  case (2 lib w ws cmd fr)
  show ?case
  proof (cases "1 + cmd_lengths lib (drop_bit 24 w) > length (w # ws)")
    case True
    then show ?thesis using 2(3) by simp
  next
    case False
    let ?len = "cmd_lengths lib (drop_bit 24 w)"
    let ?f = "fr\<lparr> pbuffer := copy_packet ?len (w # ws) (pbuffer fr) \<rparr>"
    let ?f' = "fr'\<lparr> pbuffer := copy_packet ?len (w # ws) (pbuffer fr') \<rparr>"
    have s: "same_run lib k ?f ?f'"
      using 2(3) by (simp add: same_run_pbuffer)
    have a: "\<forall>i \<le> ?len. pbuffer ?f i = pbuffer ?f' i"
      by (simp add: copy_packet_eq)
    from exec_cmd_same_run [OF 2(2) s a]
    have "same_run lib k (exec_cmd lib (drop_bit 24 w) ?f) (exec_cmd lib (drop_bit 24 w) ?f')" .
    from 2(1) [OF False 2(2) this] False show ?thesis
      by simp
  qed
qed

lemma clear_low9_twice:
  "((e AND NOT 0x1ff) OR (g AND 0x1ff)) AND NOT 0x1ff = (e AND NOT 0x1ff :: 32 word)"
  unfolding mask9 by (rule bit_word_eqI) (auto simp add: bit_simps)

lemma clear_low9_twice_normal:
  "((e AND - 512) OR (g AND 511)) AND - 512 = (e AND - 512 :: 32 word)"
  using clear_low9_twice [of e g] by simp

lemma write_back_after_write_back:
  assumes "ex_regs mB = ex_regs (write_back mA0)" and "ex_regs mA = ex_regs mA0"
    and "pvr mB = pvr mA" and "ta mB = ta mA"
  shows "write_back mB = write_back mA"
proof -
  have "pvr (write_back mB) = pvr (write_back mA)"
    using assms(3) by (simp add: write_back_pvr)
  moreover have "ex_regs (write_back mB) = ex_regs (write_back mA)"
    using assms(1,2,3) by (simp add: write_back_reg1 clear_low9_twice_normal)
  moreover have "ta (write_back mB) = ta (write_back mA)"
    using assms(4) by (simp add: write_back_ta)
  ultimately show ?thesis
    by (rule machine.equality) simp
qed

lemma do_cmd_list_truncated:
  assumes "\<forall>c \<in> set cmds. complete_cmd lib c" and "truncated_cmd lib partial"
  shows "do_cmd_list lib (concat cmds @ partial) pb0 sum0 last0 m =
    (let fr = foldl (dispatch lib)
                \<lparr> pbuffer = pb0, cpu_cycles_sum = 0, cpu_cycles = last0, mach = m \<rparr> cmds
     in \<lparr> ret = int (length (concat cmds)),
          cycles_sum_out = sum0 + cpu_cycles_sum fr,
          cycles_last = cpu_cycles fr,
          last_cmd = - 1,
          mach_out = write_back (mach fr) \<rparr>)"
  using cmd_loop_complete [OF assms(1), of partial] cmd_loop_truncated [OF assms(2)]
  by (simp add: do_cmd_list_def Let_def)

lemma do_cmd_list_resume:
  fixes lib :: gpulib and cmds :: "32 word list list" and ws :: "32 word list"
    and pb0 pb1 :: PacketBuffer and sum0 last0 :: int and m :: machine
  assumes "table_fits lib" and "\<forall>c \<in> set cmds. complete_cmd lib c" and "ws \<noteq> []"
  defines "fr0 \<equiv> \<lparr> pbuffer = pb0, cpu_cycles_sum = 0, cpu_cycles = last0, mach = m \<rparr>"
  defines "frA \<equiv> foldl (dispatch lib) fr0 cmds"
  defines "r2 \<equiv> do_cmd_list lib ws pb1 (sum0 + cpu_cycles_sum frA) (cpu_cycles frA)
                   (write_back (mach frA))"
  defines "rall \<equiv> do_cmd_list lib (concat cmds @ ws) pb0 sum0 last0 m"
  shows "int (length (concat cmds)) + ret r2 = ret rall"
    and "last_cmd r2 = last_cmd rall"
    and "mach_out r2 = mach_out rall"
    and "sum_additive lib \<Longrightarrow> cycles_sum_out r2 = cycles_sum_out rall"
    and "sum_additive lib \<Longrightarrow> cycles_last r2 = cycles_last rall"
proof -
  define frB where "frB = \<lparr> pbuffer = pb1, cpu_cycles_sum = 0, cpu_cycles = cpu_cycles frA,
                            mach = write_back (mach frA) \<rparr>"
  define k where "k = cpu_cycles_sum frA"
  define resA where "resA = cmd_loop lib ws 0 frA"
  define resB where "resB = cmd_loop lib ws 0 frB"
  have all: "cmd_loop lib (concat cmds @ ws) 0 fr0 = resA"
    unfolding resA_def frA_def
    using cmd_loop_complete [OF assms(2), of ws 0 fr0]
      cmd_loop_cmd_irrelevant [OF assms(3), of lib _ "foldl (dispatch lib) fr0 cmds" 0]
    by simp
  have s: "same_run lib k frB frA"
    by (simp add: same_run_def frB_def k_def write_back_pvr write_back_ta)
  from cmd_loop_same_run [OF assms(1) s, of ws 0]
  have rest: "fst resA = fst resB" and cmd: "fst (snd resA) = fst (snd resB)"
    and fin: "same_run lib k (snd (snd resB)) (snd (snd resA))"
    by (simp_all add: resA_def resB_def)
  have rall: "rall = \<lparr> ret = int (length (concat cmds @ ws)) - int (length (fst resA)),
                      cycles_sum_out = sum0 + cpu_cycles_sum (snd (snd resA)),
                      cycles_last = cpu_cycles (snd (snd resA)),
                      last_cmd = sint (fst (snd resA)),
                      mach_out = write_back (mach (snd (snd resA))) \<rparr>"
    unfolding rall_def do_cmd_list_def using all by (simp add: fr0_def split_def Let_def)
  have r2: "r2 = \<lparr> ret = int (length ws) - int (length (fst resB)),
                      cycles_sum_out = sum0 + k + cpu_cycles_sum (snd (snd resB)),
                      cycles_last = cpu_cycles (snd (snd resB)),
                      last_cmd = sint (fst (snd resB)),
                      mach_out = write_back (mach (snd (snd resB))) \<rparr>"
    unfolding r2_def do_cmd_list_def by (simp add: resB_def frB_def k_def split_def Let_def)
  show "int (length (concat cmds)) + ret r2 = ret rall"
    by (simp add: r2 rall rest)
  show "last_cmd r2 = last_cmd rall"
    by (simp add: r2 rall cmd)
  have eB: "ex_regs (mach (snd (snd resB))) = ex_regs (write_back (mach frA))"
    unfolding resB_def by (simp add: cmd_loop_ex_regs frB_def)
  have eA: "ex_regs (mach (snd (snd resA))) = ex_regs (mach frA)"
    unfolding resA_def by (simp add: cmd_loop_ex_regs)
  from fin have "pvr (mach (snd (snd resB))) = pvr (mach (snd (snd resA)))"
    and "ta (mach (snd (snd resB))) = ta (mach (snd (snd resA)))"
    by (simp_all add: same_run_def)
  from write_back_after_write_back [OF eB eA this]
  show "mach_out r2 = mach_out rall"
    by (simp add: r2 rall)
  show "cycles_sum_out r2 = cycles_sum_out rall" if "sum_additive lib"
    using fin that by (simp add: r2 rall same_run_def)
  show "cycles_last r2 = cycles_last rall" if "sum_additive lib"
    using fin that by (simp add: r2 rall same_run_def)
qed

lemma psx_sum_additive: "sum_additive psx_gpulib"
  by (simp add: sum_additive_def psx_gpulib_def)

section \<open>Properties of the specification\<close>

text \<open>
  C1 (completeness). On a buffer that is the concatenation of fully-formed commands,
  \<open>do_cmd_list\<close> returns the length of the buffer, which is the sum of \<open>1 + length\<close> over
  the commands; the frame at the exit is the one obtained by running the loop body on the
  commands one after the other in buffer order, and \<open>*last_cmd\<close> is the opcode of the last
  command (0 when there is none).
\<close>

theorem complete_buffer_consumed_in_order:
  assumes "table_fits lib" and "\<forall>c \<in> set cmds. complete_cmd lib c"
  shows "do_cmd_list lib (concat cmds) pb0 sum0 last0 m =
      (let fr = foldl (dispatch lib)
                  \<lparr> pbuffer = pb0, cpu_cycles_sum = 0, cpu_cycles = last0, mach = m \<rparr> cmds
       in \<lparr> ret = int (length (concat cmds)),
            cycles_sum_out = sum0 + cpu_cycles_sum fr,
            cycles_last = cpu_cycles fr,
            last_cmd = (if cmds = [] then 0 else sint (opcode (hd (last cmds)))),
            mach_out = write_back (mach fr) \<rparr>)
    \<and> int (length (concat cmds)) = (\<Sum>c\<leftarrow>cmds. 1 + int (cmd_lengths lib (opcode (hd c))))"
  using do_cmd_list_complete [OF assms(2)] length_concat_complete [OF assms(2)] by simp

theorem complete_buffer_consumed_in_order_witness:
  "table_fits psx_gpulib
   \<and> complete_cmd psx_gpulib [0xe3005010]
   \<and> complete_cmd psx_gpulib [0x20112233, 0, 0x10, 0x100000]
   \<and> complete_cmd psx_gpulib [0x00000000]
   \<and> ret (do_cmd_list psx_gpulib
            (concat [[0xe3005010], [0x20112233, 0, 0x10, 0x100000], [0x00000000]])
            pbuffer_zero 100 7 machine_init) = 6
   \<and> last_cmd (do_cmd_list psx_gpulib
            (concat [[0xe3005010], [0x20112233, 0, 0x10, 0x100000], [0x00000000]])
            pbuffer_zero 100 7 machine_init) = 0
   \<and> mach_out (do_cmd_list psx_gpulib
            (concat [[0xe3005010], [0x20112233, 0, 0x10, 0x100000], [0x00000000]])
            pbuffer_zero 100 7 machine_init) =
       write_back (mach (foldl (dispatch psx_gpulib)
          \<lparr> pbuffer = pbuffer_zero, cpu_cycles_sum = 0, cpu_cycles = 7, mach = machine_init \<rparr>
          [[0xe3005010], [0x20112233, 0, 0x10, 0x100000], [0x00000000]]))"
proof -
  have h: "\<forall>c \<in> set [[0xe3005010], [0x20112233, 0, 0x10, 0x100000], [0x00000000]].
             complete_cmd psx_gpulib c"
    by code_simp
  have o: "sint (opcode (0 :: 32 word)) = 0"
    by (simp add: opcode_def)
  from complete_buffer_consumed_in_order [OF psx_table_fits h, of pbuffer_zero 100 7 machine_init]
  show ?thesis
    using psx_table_fits h by (simp add: Let_def o del: foldl.simps)
qed

text \<open>
  C2 (incomplete trailing command). When the fully-formed commands of a buffer are followed
  by a truncated one, \<open>do_cmd_list\<close> runs the fully-formed ones, sets \<open>*last_cmd\<close> to -1 and
  returns the offset at which the truncated command begins, so that what is left from
  that offset is exactly the partial command. Calling again on the partial command
  followed by further words, with the counters and the global state the first call left
  (and whatever the fresh packet buffer holds), consumes what a single call on the whole
  input consumes beyond the returned offset and ends with the same \<open>*last_cmd\<close> and the
  same global state; if \<open>gput_sum\<close> is additive, with the same cycle counters as well.
\<close>

theorem truncated_command_stops_and_resumes:
  assumes "table_fits lib" and "\<forall>c \<in> set cmds. complete_cmd lib c"
    and "truncated_cmd lib partial"
  shows
    "(let r1 = do_cmd_list lib (concat cmds @ partial) pb0 sum0 last0 m;
          r2 = do_cmd_list lib (drop (nat (ret r1)) (concat cmds @ partial) @ extra) pb1
                 (cycles_sum_out r1) (cycles_last r1) (mach_out r1);
          rall = do_cmd_list lib (concat cmds @ partial @ extra) pb0 sum0 last0 m
      in last_cmd r1 = - 1
         \<and> ret r1 = int (length (concat cmds))
         \<and> drop (nat (ret r1)) (concat cmds @ partial) = partial
         \<and> mach_out r1 =
             write_back (mach (foldl (dispatch lib)
               \<lparr> pbuffer = pb0, cpu_cycles_sum = 0, cpu_cycles = last0, mach = m \<rparr> cmds))
         \<and> ret r1 + ret r2 = ret rall
         \<and> last_cmd r2 = last_cmd rall
         \<and> mach_out r2 = mach_out rall
         \<and> (sum_additive lib \<longrightarrow>
               cycles_sum_out r2 = cycles_sum_out rall \<and> cycles_last r2 = cycles_last rall))"
proof -
  define fr0 where "fr0 = \<lparr> pbuffer = pb0, cpu_cycles_sum = 0, cpu_cycles = last0, mach = m \<rparr>"
  define frA where "frA = foldl (dispatch lib) fr0 cmds"
  define r1 where "r1 = do_cmd_list lib (concat cmds @ partial) pb0 sum0 last0 m"
  define r2 where "r2 = do_cmd_list lib (partial @ extra) pb1
                 (sum0 + cpu_cycles_sum frA) (cpu_cycles frA) (write_back (mach frA))"
  define rall where "rall = do_cmd_list lib (concat cmds @ partial @ extra) pb0 sum0 last0 m"
  have r1: "r1 = \<lparr> ret = int (length (concat cmds)),
                   cycles_sum_out = sum0 + cpu_cycles_sum frA,
                   cycles_last = cpu_cycles frA,
                   last_cmd = - 1,
                   mach_out = write_back (mach frA) \<rparr>"
    unfolding r1_def frA_def fr0_def
    using do_cmd_list_truncated [OF assms(2,3), of pb0 sum0 last0 m] by (simp add: Let_def)
  have d: "drop (nat (ret r1)) (concat cmds @ partial) = partial"
    by (simp add: r1)
  from assms(3) have ne: "partial @ extra \<noteq> []"
    by (simp add: truncated_cmd_def)
  note res = do_cmd_list_resume [OF assms(1,2) ne, of pb1 sum0 pb0 last0 m,
      folded fr0_def frA_def, folded r2_def, unfolded append_assoc [symmetric]]
  have "last_cmd r1 = - 1 \<and> ret r1 = int (length (concat cmds))
      \<and> drop (nat (ret r1)) (concat cmds @ partial) = partial
      \<and> mach_out r1 = write_back (mach frA)
      \<and> ret r1 + ret r2 = ret rall \<and> last_cmd r2 = last_cmd rall \<and> mach_out r2 = mach_out rall
      \<and> (sum_additive lib \<longrightarrow>
            cycles_sum_out r2 = cycles_sum_out rall \<and> cycles_last r2 = cycles_last rall)"
    using res d by (simp add: r1 rall_def)
  then show ?thesis
    unfolding Let_def r1_def [symmetric] d
    by (simp add: r1 r2_def rall_def frA_def fr0_def)
qed

theorem truncated_command_stops_and_resumes_witness:
  "table_fits psx_gpulib
   \<and> complete_cmd psx_gpulib [0xe1000400]
   \<and> complete_cmd psx_gpulib [0x02000000, 0x00000010, 0x00200020]
   \<and> truncated_cmd psx_gpulib [0x30112233, 0, 0x445566]
   \<and> sum_additive psx_gpulib
   \<and> (let r1 = do_cmd_list psx_gpulib
                 (concat [[0xe1000400], [0x02000000, 0x00000010, 0x00200020]]
                    @ [0x30112233, 0, 0x445566]) pbuffer_zero 100 7 machine_init;
            r2 = do_cmd_list psx_gpulib
                 (drop (nat (ret r1))
                    (concat [[0xe1000400], [0x02000000, 0x00000010, 0x00200020]]
                       @ [0x30112233, 0, 0x445566])
                  @ [0x10, 0x778899, 0x100000, 0xe6000003])
                 (\<lambda>_. 0xffffffff) (cycles_sum_out r1) (cycles_last r1) (mach_out r1);
            rall = do_cmd_list psx_gpulib
                 (concat [[0xe1000400], [0x02000000, 0x00000010, 0x00200020]]
                    @ [0x30112233, 0, 0x445566] @ [0x10, 0x778899, 0x100000, 0xe6000003])
                 pbuffer_zero 100 7 machine_init
        in last_cmd r1 = - 1 \<and> ret r1 = 4 \<and> ret r1 + ret r2 = ret rall
           \<and> last_cmd r2 = last_cmd rall \<and> mach_out r2 = mach_out rall
           \<and> cycles_sum_out r2 = cycles_sum_out rall \<and> cycles_last r2 = cycles_last rall)"
proof -
  have h1: "\<forall>c \<in> set [[0xe1000400], [0x02000000, 0x00000010, 0x00200020]].
              complete_cmd psx_gpulib c"
    by code_simp
  have h2: "truncated_cmd psx_gpulib [0x30112233, 0, 0x445566]"
    by code_simp
  have c1: "complete_cmd psx_gpulib [0xe1000400]"
    by code_simp
  have c2: "complete_cmd psx_gpulib [0x02000000, 0x00000010, 0x00200020]"
    by code_simp
  have l: "int (length (concat [[0xe1000400], [0x02000000, 0x00000010, 0x00200020 :: 32 word]])) = 4"
    by simp
  from truncated_command_stops_and_resumes [OF psx_table_fits h1 h2,
      of pbuffer_zero 100 7 machine_init "[0x10, 0x778899, 0x100000, 0xe6000003]"
        "\<lambda>_. 0xffffffff"]
  show ?thesis
    unfolding Let_def l using psx_table_fits c1 c2 h2 psx_sum_additive by blast
qed

text \<open>
  C3 (fill rectangle, rounding to 16-pixel blocks). The comment in \<open>cmd_clear_image\<close> says
  that position and size work in 16-pixel blocks, but the code masks with \<open>0xf\<close>, which
  keeps the low four bits instead of clearing them. For a fill at x = 16 of width 32
  the locals end as x0 = 14 and w0 = 14, where rounding with \<open>(v + 14) & ~15\<close> gives 16
  and 32.
\<close>

theorem cmd_clear_image_x16:
  "cmd_clear_image ((\<lambda>_. 0)(0 := 0x02000000, 1 := 0x00000010, 2 := 0x00200020)) = (14, 0, 14, 32)
   \<and> ((16 + 14) AND NOT 15 :: 32 word) = 16 \<and> ((32 + 14) AND NOT 15 :: 32 word) = 32"
  by code_simp

text \<open>
  C4 (status register write-back), as stated: after every call the low 11 bits of
  \<open>gpu.ex_regs[1]\<close> are those of \<open>pvr.gp1\<close>. This fails after a set-texture-page command
  that sets bit 10: \<open>gp1\<close> takes the bit, the status register does not.
\<close>

theorem status_low11_counterexample:
  "take_bit 11 (ex_regs (mach_out (do_cmd_list psx_gpulib [0xe1000400] pbuffer_zero 0 0 machine_init)) 1)
   \<noteq> take_bit 11 (gp1 (pvr (mach_out (do_cmd_list psx_gpulib [0xe1000400] pbuffer_zero 0 0 machine_init))))"
  by code_simp

text \<open>
  C4, amended: after every call \<open>gpu.ex_regs[1]\<close> has its low 9 bits (mask \<open>0x1ff\<close>)
  replaced by the low 9 bits of \<open>pvr.gp1\<close>; its bits from 9 upwards and all other entries
  of \<open>ex_regs\<close> are as they were at entry.
\<close>

theorem status_write_back_low9:
  "ex_regs (mach_out (do_cmd_list lib list pb0 sum0 last0 m)) =
     (ex_regs m)(1 := (ex_regs m 1 AND NOT 0x1ff)
                      OR (gp1 (pvr (mach_out (do_cmd_list lib list pb0 sum0 last0 m))) AND 0x1ff))
   \<and> take_bit 9 (ex_regs (mach_out (do_cmd_list lib list pb0 sum0 last0 m)) 1) =
     take_bit 9 (gp1 (pvr (mach_out (do_cmd_list lib list pb0 sum0 last0 m))))
   \<and> drop_bit 9 (ex_regs (mach_out (do_cmd_list lib list pb0 sum0 last0 m)) 1) =
     drop_bit 9 (ex_regs m 1)"
proof -
  define fr0 where "fr0 = \<lparr> pbuffer = pb0, cpu_cycles_sum = 0, cpu_cycles = last0, mach = m \<rparr>"
  define fr where "fr = snd (snd (cmd_loop lib list 0 fr0))"
  have out: "mach_out (do_cmd_list lib list pb0 sum0 last0 m) = write_back (mach fr)"
    by (simp add: do_cmd_list_def fr_def fr0_def split_def Let_def)
  have regs: "ex_regs (mach fr) = ex_regs m"
    unfolding fr_def by (simp add: cmd_loop_ex_regs fr0_def)
  have v: "ex_regs (write_back (mach fr)) 1 =
             (ex_regs m 1 AND NOT 0x1ff) OR (gp1 (pvr (mach fr)) AND 0x1ff)"
    by (simp add: write_back_reg1 regs)
  have a: "ex_regs (write_back (mach fr)) =
             (ex_regs m)(1 := (ex_regs m 1 AND NOT 0x1ff)
                              OR (gp1 (pvr (write_back (mach fr))) AND 0x1ff))"
    by (simp add: write_back_reg1 write_back_pvr regs)
  have b: "take_bit 9 (ex_regs (write_back (mach fr)) 1) =
             take_bit 9 (gp1 (pvr (write_back (mach fr))))"
    by (simp only: v low9 write_back_pvr)
  have c: "drop_bit 9 (ex_regs (write_back (mach fr)) 1) = drop_bit 9 (ex_regs m 1)"
    by (simp only: v high9)
  show ?thesis
    unfolding out using a b c by blast
qed

text \<open>
  C5 (set drawing offset). For every command word the handler of \<open>0xe5\<close> stores in
  \<open>draw_dx\<close> the value of bits 0-10 read as an 11-bit two's-complement number and in
  \<open>draw_dy\<close> that of bits 11-21. Hence a word that packs dx and dy, both between -1024
  and 1023, the way the specification describes, is decoded to exactly (dx, dy), for
  instance the pair (-5, 7).
\<close>

theorem set_drawing_offset_sign_extends:
  assumes "- 1024 \<le> dx" "dx \<le> 1023" "- 1024 \<le> dy" "dy \<le> 1023"
  shows "opcode (spec_encode_offset dx dy) = 0xe5
    \<and> sint (draw_dx (pvr (mach (exec_cmd lib 0xe5 (fr\<lparr> pbuffer := (pbuffer fr)(0 := spec_encode_offset dx dy) \<rparr>))))) = dx
    \<and> sint (draw_dy (pvr (mach (exec_cmd lib 0xe5 (fr\<lparr> pbuffer := (pbuffer fr)(0 := spec_encode_offset dx dy) \<rparr>))))) = dy
    \<and> sint (draw_dx (pvr (mach (exec_cmd lib 0xe5 fr)))) = sint (ucast (U4 (pbuffer fr) 0) :: 11 word)
    \<and> sint (draw_dy (pvr (mach (exec_cmd lib 0xe5 fr)))) = sint (ucast (drop_bit 11 (U4 (pbuffer fr) 0)) :: 11 word)"
proof -
  let ?fr = "fr\<lparr> pbuffer := (pbuffer fr)(0 := spec_encode_offset dx dy) \<rparr>"
  have x: "sint (draw_dx (pvr (mach (exec_cmd lib 0xe5 ?fr)))) = dx"
    using assms by (simp add: exec_e5 U4_def decode_encode_dx)
  have y: "sint (draw_dy (pvr (mach (exec_cmd lib 0xe5 ?fr)))) = dy"
    using assms by (simp add: exec_e5 U4_def decode_encode_dy)
  have gx: "sint (draw_dx (pvr (mach (exec_cmd lib 0xe5 fr)))) =
              sint (ucast (U4 (pbuffer fr) 0) :: 11 word)"
    by (simp add: exec_e5 sint_dx_field)
  have gy: "sint (draw_dy (pvr (mach (exec_cmd lib 0xe5 fr)))) =
              sint (ucast (drop_bit 11 (U4 (pbuffer fr) 0)) :: 11 word)"
    by (simp add: exec_e5 sint_dy_field)
  from opcode_spec_encode_offset x y gx gy show ?thesis by blast
qed

theorem set_drawing_offset_sign_extends_witness:
  "- 1024 \<le> (- 5 :: int) \<and> (- 5 :: int) \<le> 1023 \<and> - 1024 \<le> (7 :: int) \<and> (7 :: int) \<le> 1023
   \<and> spec_encode_offset (- 5) 7 = 0xe5003ffb
   \<and> sint (draw_dx (pvr (mach (exec_cmd psx_gpulib 0xe5
         \<lparr> pbuffer = pbuffer_zero(0 := 0xe5003ffb), cpu_cycles_sum = 0, cpu_cycles = 0,
           mach = machine_init \<rparr>)))) = - 5
   \<and> sint (draw_dy (pvr (mach (exec_cmd psx_gpulib 0xe5
         \<lparr> pbuffer = pbuffer_zero(0 := 0xe5003ffb), cpu_cycles_sum = 0, cpu_cycles = 0,
           mach = machine_init \<rparr>)))) = 7"
proof -
  have e: "spec_encode_offset (- 5) 7 = 0xe5003ffb"
    by (simp add: spec_encode_offset_def)
  from set_drawing_offset_sign_extends [of "- 5" 7 psx_gpulib
      "\<lparr> pbuffer = pbuffer_zero, cpu_cycles_sum = 0, cpu_cycles = 0, mach = machine_init \<rparr>"]
  show ?thesis by (simp add: e)
qed

text \<open>
  C6 (colour conversion). Every colour word a drawing handler consumes reaches the vertex
  as \<open>__builtin_bswap32(word) >> 8\<close>: the three low bytes in reverse order, the top byte
  (the opcode, in the first word) dropped; \<open>0x00112233\<close> becomes \<open>0x00332211\<close>. The
  colours of the vertices each drawing opcode emits are listed in emission order: flat
  polygons, the flat line and the rectangle use word 0 throughout; shaded polygons take
  words 0, 2, 4 (and 6); the shaded line takes word 0 for its first point and word 2 for
  its second.
\<close>

theorem vertex_colour_is_swapped_word:
  "bgr_to_rgb w = drop_bit 8 (bswap32 w)
   \<and> bgr_to_rgb w = push_bit 16 (take_bit 8 w) OR push_bit 8 (take_bit 8 (drop_bit 8 w))
                       OR take_bit 8 (drop_bit 16 w)
   \<and> bgr_to_rgb 0x00112233 = 0x00332211
   \<and> map argb (vertices_of (emitted lib 0x20 fr)) =
       [bgr_to_rgb (U4 (pbuffer fr) 0), bgr_to_rgb (U4 (pbuffer fr) 0),
        bgr_to_rgb (U4 (pbuffer fr) 0)]
   \<and> map argb (vertices_of (emitted lib 0x28 fr)) =
       [bgr_to_rgb (U4 (pbuffer fr) 0), bgr_to_rgb (U4 (pbuffer fr) 0),
        bgr_to_rgb (U4 (pbuffer fr) 0), bgr_to_rgb (U4 (pbuffer fr) 0)]
   \<and> map argb (vertices_of (emitted lib 0x30 fr)) =
       [bgr_to_rgb (U4 (pbuffer fr) 0), bgr_to_rgb (U4 (pbuffer fr) 2),
        bgr_to_rgb (U4 (pbuffer fr) 4)]
   \<and> map argb (vertices_of (emitted lib 0x38 fr)) =
       [bgr_to_rgb (U4 (pbuffer fr) 0), bgr_to_rgb (U4 (pbuffer fr) 2),
        bgr_to_rgb (U4 (pbuffer fr) 4), bgr_to_rgb (U4 (pbuffer fr) 6)]
   \<and> map argb (vertices_of (emitted lib 0x40 fr)) =
       [bgr_to_rgb (U4 (pbuffer fr) 0), bgr_to_rgb (U4 (pbuffer fr) 0),
        bgr_to_rgb (U4 (pbuffer fr) 0), bgr_to_rgb (U4 (pbuffer fr) 0),
        bgr_to_rgb (U4 (pbuffer fr) 0), bgr_to_rgb (U4 (pbuffer fr) 0)]
   \<and> map argb (vertices_of (emitted lib 0x50 fr)) =
       (if ucast (U4 (pbuffer fr) 3) <s (ucast (U4 (pbuffer fr) 1) :: 16 word)
        then [bgr_to_rgb (U4 (pbuffer fr) 2), bgr_to_rgb (U4 (pbuffer fr) 2),
              bgr_to_rgb (U4 (pbuffer fr) 2), bgr_to_rgb (U4 (pbuffer fr) 0),
              bgr_to_rgb (U4 (pbuffer fr) 0), bgr_to_rgb (U4 (pbuffer fr) 0)]
        else [bgr_to_rgb (U4 (pbuffer fr) 0), bgr_to_rgb (U4 (pbuffer fr) 0),
              bgr_to_rgb (U4 (pbuffer fr) 0), bgr_to_rgb (U4 (pbuffer fr) 2),
              bgr_to_rgb (U4 (pbuffer fr) 2), bgr_to_rgb (U4 (pbuffer fr) 2)])
   \<and> map argb (vertices_of (emitted lib 0x60 fr)) =
       [bgr_to_rgb (U4 (pbuffer fr) 0), bgr_to_rgb (U4 (pbuffer fr) 0),
        bgr_to_rgb (U4 (pbuffer fr) 0), bgr_to_rgb (U4 (pbuffer fr) 0)]"
proof -
  have ex: "bgr_to_rgb 0x00112233 = 0x00332211"
    by (simp add: bgr_to_rgb_def bswap32_def)
  have l40: "map argb (line_vertices (pvr (mach fr)) 0x40 (pbuffer fr)) =
       [bgr_to_rgb (U4 (pbuffer fr) 0), bgr_to_rgb (U4 (pbuffer fr) 0),
        bgr_to_rgb (U4 (pbuffer fr) 0), bgr_to_rgb (U4 (pbuffer fr) 0),
        bgr_to_rgb (U4 (pbuffer fr) 0), bgr_to_rgb (U4 (pbuffer fr) 0)]"
    by (simp add: line_vertices_40 draw_line_argb)
  have l50: "map argb (line_vertices (pvr (mach fr)) 0x50 (pbuffer fr)) =
       (if ucast (U4 (pbuffer fr) 3) <s (ucast (U4 (pbuffer fr) 1) :: 16 word)
        then [bgr_to_rgb (U4 (pbuffer fr) 2), bgr_to_rgb (U4 (pbuffer fr) 2),
              bgr_to_rgb (U4 (pbuffer fr) 2), bgr_to_rgb (U4 (pbuffer fr) 0),
              bgr_to_rgb (U4 (pbuffer fr) 0), bgr_to_rgb (U4 (pbuffer fr) 0)]
        else [bgr_to_rgb (U4 (pbuffer fr) 0), bgr_to_rgb (U4 (pbuffer fr) 0),
              bgr_to_rgb (U4 (pbuffer fr) 0), bgr_to_rgb (U4 (pbuffer fr) 2),
              bgr_to_rgb (U4 (pbuffer fr) 2), bgr_to_rgb (U4 (pbuffer fr) 2)])"
    by (simp add: line_vertices_50 draw_line_argb)
  show ?thesis
    by (simp only: emitted_poly emitted_line emitted_rect vertices_of.simps vertices_of_map
          poly_argb_20 poly_argb_28 poly_argb_30 poly_argb_38 rect_argb l40 l50 ex
          bgr_to_rgb_bytes [symmetric] simp_thms)
      (simp add: bgr_to_rgb_def)
qed

text \<open>
  C7 (line expansion). \<open>draw_line\<close> emits exactly six vertices and only the sixth carries
  \<open>PVR_CMD_VERTEX_EOL\<close>. For both line opcodes the second point is passed first when its
  x is smaller (as \<open>int16_t\<close>) than that of the first point, otherwise the first point is
  passed first, ties included. For the segment from (0,0) to (10,0) the y of the six
  vertices, relative to where y = 0 lands, are 0, 1, 0, 1, 0, 1; the same holds for the
  two commands that draw this segment in either direction right after initialisation.
\<close>

theorem line_expansion:
  "map flags (draw_line p x0 y0 c0 x1 y1 c1) =
     [PVR_CMD_VERTEX, PVR_CMD_VERTEX, PVR_CMD_VERTEX, PVR_CMD_VERTEX, PVR_CMD_VERTEX,
      PVR_CMD_VERTEX_EOL]
   \<and> length (draw_line p x0 y0 c0 x1 y1 c1) = 6
   \<and> vertices_of (emitted lib 0x40 fr) =
       (if ucast (U4 (pbuffer fr) 2) <s (ucast (U4 (pbuffer fr) 1) :: 16 word)
        then draw_line (pvr (mach fr))
               (ucast (U4 (pbuffer fr) 2)) (ucast (drop_bit 16 (U4 (pbuffer fr) 2)))
               (bgr_to_rgb (U4 (pbuffer fr) 0))
               (ucast (U4 (pbuffer fr) 1)) (ucast (drop_bit 16 (U4 (pbuffer fr) 1)))
               (bgr_to_rgb (U4 (pbuffer fr) 0))
        else draw_line (pvr (mach fr))
               (ucast (U4 (pbuffer fr) 1)) (ucast (drop_bit 16 (U4 (pbuffer fr) 1)))
               (bgr_to_rgb (U4 (pbuffer fr) 0))
               (ucast (U4 (pbuffer fr) 2)) (ucast (drop_bit 16 (U4 (pbuffer fr) 2)))
               (bgr_to_rgb (U4 (pbuffer fr) 0)))
   \<and> vertices_of (emitted lib 0x50 fr) =
       (if ucast (U4 (pbuffer fr) 3) <s (ucast (U4 (pbuffer fr) 1) :: 16 word)
        then draw_line (pvr (mach fr))
               (ucast (U4 (pbuffer fr) 3)) (ucast (drop_bit 16 (U4 (pbuffer fr) 3)))
               (bgr_to_rgb (U4 (pbuffer fr) 2))
               (ucast (U4 (pbuffer fr) 1)) (ucast (drop_bit 16 (U4 (pbuffer fr) 1)))
               (bgr_to_rgb (U4 (pbuffer fr) 0))
        else draw_line (pvr (mach fr))
               (ucast (U4 (pbuffer fr) 1)) (ucast (drop_bit 16 (U4 (pbuffer fr) 1)))
               (bgr_to_rgb (U4 (pbuffer fr) 0))
               (ucast (U4 (pbuffer fr) 3)) (ucast (drop_bit 16 (U4 (pbuffer fr) 3)))
               (bgr_to_rgb (U4 (pbuffer fr) 2)))
   \<and> map (\<lambda>v. vy v - y_to_pvr p 0) (draw_line p 0 0 c0 10 0 c1) = [0, 1, 0, 1, 0, 1]
   \<and> map vy (vertices_of (ta (mach_out
         (do_cmd_list psx_gpulib [0x40000000, 0x00000000, 0x0000000a] pbuffer_zero 0 0
            machine_init)))) = [0, 1, 0, 1, 0, 1]
   \<and> map vy (vertices_of (ta (mach_out
         (do_cmd_list psx_gpulib [0x40000000, 0x0000000a, 0x00000000] pbuffer_zero 0 0
            machine_init)))) = [0, 1, 0, 1, 0, 1]"
proof -
  have len: "length (draw_line p x0 y0 c0 x1 y1 c1) = 6"
    by (simp add: draw_line_def Let_def)
  have band: "map (\<lambda>v. vy v - y_to_pvr p 0) (draw_line p 0 0 c0 10 0 c1) = [0, 1, 0, 1, 0, 1]"
    by (simp add: draw_line_def upt_6 Let_def y_to_pvr_def)
  have run1: "map vy (vertices_of (ta (mach_out
         (do_cmd_list psx_gpulib [0x40000000, 0x00000000, 0x0000000a] pbuffer_zero 0 0
            machine_init)))) = [0, 1, 0, 1, 0, 1]"
    by code_simp
  have run2: "map vy (vertices_of (ta (mach_out
         (do_cmd_list psx_gpulib [0x40000000, 0x0000000a, 0x00000000] pbuffer_zero 0 0
            machine_init)))) = [0, 1, 0, 1, 0, 1]"
    by code_simp
  show ?thesis
    by (simp only: emitted_line vertices_of.simps vertices_of_map line_vertices_40
          line_vertices_50 draw_line_flags len band run1 run2 simp_thms)
qed

text \<open>
  C8 (state is changed only by the designated opcode). A handler other than that of
  \<open>0xe1\<close> leaves \<open>gp1\<close> as it is; likewise \<open>0xe3\<close> for the top-left clip corner, \<open>0xe4\<close>
  for the bottom-right one, \<open>0xe5\<close> for the drawing offset and \<open>0xe6\<close> for the mask flags.
  A buffer of fully-formed commands none of which has one of these five opcodes, whatever
  else they are, is consumed whole (\<open>1 + length\<close> words per command), ends without the
  incomplete sentinel and leaves \<open>pvr\<close> unchanged.
\<close>

theorem state_changed_only_by_designated_opcode:
  "(cmd \<noteq> 0xe1 \<longrightarrow> gp1 (pvr (mach (exec_cmd lib cmd fr))) = gp1 (pvr (mach fr)))
   \<and> (cmd \<noteq> 0xe3 \<longrightarrow> draw_x1 (pvr (mach (exec_cmd lib cmd fr))) = draw_x1 (pvr (mach fr))
          \<and> draw_y1 (pvr (mach (exec_cmd lib cmd fr))) = draw_y1 (pvr (mach fr)))
   \<and> (cmd \<noteq> 0xe4 \<longrightarrow> draw_x2 (pvr (mach (exec_cmd lib cmd fr))) = draw_x2 (pvr (mach fr))
          \<and> draw_y2 (pvr (mach (exec_cmd lib cmd fr))) = draw_y2 (pvr (mach fr)))
   \<and> (cmd \<noteq> 0xe5 \<longrightarrow> draw_dx (pvr (mach (exec_cmd lib cmd fr))) = draw_dx (pvr (mach fr))
          \<and> draw_dy (pvr (mach (exec_cmd lib cmd fr))) = draw_dy (pvr (mach fr)))
   \<and> (cmd \<noteq> 0xe6 \<longrightarrow> set_mask (pvr (mach (exec_cmd lib cmd fr))) = set_mask (pvr (mach fr))
          \<and> check_mask (pvr (mach (exec_cmd lib cmd fr))) = check_mask (pvr (mach fr)))
   \<and> (table_fits lib
        \<and> (\<forall>c \<in> set cmds. complete_cmd lib c \<and> opcode (hd c) \<notin> {0xe1, 0xe3, 0xe4, 0xe5, 0xe6})
      \<longrightarrow> pvr (mach_out (do_cmd_list lib (concat cmds) pb0 sum0 last0 m)) = pvr m
          \<and> ret (do_cmd_list lib (concat cmds) pb0 sum0 last0 m) =
              (\<Sum>c\<leftarrow>cmds. 1 + int (cmd_lengths lib (opcode (hd c))))
          \<and> last_cmd (do_cmd_list lib (concat cmds) pb0 sum0 last0 m) \<noteq> - 1)"
proof -
  have call: "pvr (mach_out (do_cmd_list lib (concat cmds) pb0 sum0 last0 m)) = pvr m
          \<and> ret (do_cmd_list lib (concat cmds) pb0 sum0 last0 m) =
              (\<Sum>c\<leftarrow>cmds. 1 + int (cmd_lengths lib (opcode (hd c))))
          \<and> last_cmd (do_cmd_list lib (concat cmds) pb0 sum0 last0 m) \<noteq> - 1"
    if c: "\<forall>c \<in> set cmds. complete_cmd lib c"
      and o: "\<forall>c \<in> set cmds. opcode (hd c) \<notin> {0xe1, 0xe3, 0xe4, 0xe5, 0xe6}"
  proof -
    have "pvr (mach_out (do_cmd_list lib (concat cmds) pb0 sum0 last0 m)) = pvr m"
      by (simp add: do_cmd_list_complete [OF c] Let_def write_back_pvr foldl_dispatch_pvr [OF o])
    moreover have "ret (do_cmd_list lib (concat cmds) pb0 sum0 last0 m) =
              (\<Sum>c\<leftarrow>cmds. 1 + int (cmd_lengths lib (opcode (hd c))))"
      using length_concat_complete [OF c] by (simp add: do_cmd_list_complete [OF c] Let_def)
    moreover have "last_cmd (do_cmd_list lib (concat cmds) pb0 sum0 last0 m) \<noteq> - 1"
      by (simp add: do_cmd_list_complete [OF c] Let_def sint_opcode_not_incomplete)
    ultimately show ?thesis by blast
  qed
  show ?thesis
    using exec_cmd_gp1 [of cmd lib fr] exec_cmd_clip1 [of cmd lib fr] exec_cmd_clip2 [of cmd lib fr]
      exec_cmd_offset [of cmd lib fr] exec_cmd_mask [of cmd lib fr] call
    by blast
qed

theorem state_changed_only_by_designated_opcode_witness:
  "(0x20 :: 32 word) \<noteq> 0xe1 \<and> (0x20 :: 32 word) \<noteq> 0xe3 \<and> (0x20 :: 32 word) \<noteq> 0xe4
   \<and> (0x20 :: 32 word) \<noteq> 0xe5 \<and> (0x20 :: 32 word) \<noteq> 0xe6
   \<and> table_fits psx_gpulib
   \<and> complete_cmd psx_gpulib [0xff000000]
   \<and> opcode 0xff000000 \<notin> {0xe1, 0xe3, 0xe4, 0xe5, 0xe6}
   \<and> complete_cmd psx_gpulib [0x20112233, 0, 0x10, 0x100000]
   \<and> opcode 0x20112233 \<notin> {0xe1, 0xe3, 0xe4, 0xe5, 0xe6}
   \<and> pvr (mach (exec_cmd psx_gpulib 0x20
         \<lparr> pbuffer = pbuffer_zero, cpu_cycles_sum = 0, cpu_cycles = 0, mach = machine_init \<rparr>))
       = renderer_init
   \<and> pvr (mach_out (do_cmd_list psx_gpulib
         (concat [[0xff000000], [0x20112233, 0, 0x10, 0x100000]])
         pbuffer_zero 100 7 machine_init)) = renderer_init
   \<and> ret (do_cmd_list psx_gpulib
         (concat [[0xff000000], [0x20112233, 0, 0x10, 0x100000]])
         pbuffer_zero 100 7 machine_init) = 5
   \<and> last_cmd (do_cmd_list psx_gpulib
         (concat [[0xff000000], [0x20112233, 0, 0x10, 0x100000]])
         pbuffer_zero 100 7 machine_init) \<noteq> - 1"
proof -
  let ?cmds = "[[0xff000000], [0x20112233, 0, 0x10, 0x100000 :: 32 word]]"
  let ?fr = "\<lparr> pbuffer = pbuffer_zero, cpu_cycles_sum = 0, cpu_cycles = 0, mach = machine_init \<rparr>"
  have h: "\<forall>c \<in> set ?cmds.
             complete_cmd psx_gpulib c \<and> opcode (hd c) \<notin> {0xe1, 0xe3, 0xe4, 0xe5, 0xe6}"
    by code_simp
  have l: "(\<Sum>c\<leftarrow>?cmds. 1 + int (cmd_lengths psx_gpulib (opcode (hd c)))) = 5"
    by code_simp
  have p: "pvr (mach (exec_cmd psx_gpulib 0x20 ?fr)) = renderer_init"
    by (simp add: exec_cmd_pvr_other machine_init_def)
  from state_changed_only_by_designated_opcode
         [of "0x20" psx_gpulib ?fr ?cmds pbuffer_zero 100 7 machine_init]
  have "pvr (mach_out (do_cmd_list psx_gpulib (concat ?cmds) pbuffer_zero 100 7 machine_init))
          = pvr machine_init
        \<and> ret (do_cmd_list psx_gpulib (concat ?cmds) pbuffer_zero 100 7 machine_init) =
            (\<Sum>c\<leftarrow>?cmds. 1 + int (cmd_lengths psx_gpulib (opcode (hd c))))
        \<and> last_cmd (do_cmd_list psx_gpulib (concat ?cmds) pbuffer_zero 100 7 machine_init) \<noteq> - 1"
    using psx_table_fits h by blast
  then show ?thesis
    using psx_table_fits h p unfolding l by (simp add: machine_init_def)
qed

text \<open>
  C9 (cycle accounting), as stated: every processed command adds the cost of its class to
  the accumulator. A flat triangle is processed and drawn, and the call leaves
  \<open>*cycles_sum_out\<close> and \<open>*cycles_last\<close> exactly as they were: nothing is accounted for it.
\<close>

theorem polygon_adds_no_cycles_counterexample:
  "ta (mach_out (do_cmd_list psx_gpulib [0x20112233, 0, 0x10, 0x100000] pbuffer_zero 100 7
         machine_init)) \<noteq> []
   \<and> last_cmd (do_cmd_list psx_gpulib [0x20112233, 0, 0x10, 0x100000] pbuffer_zero 100 7
         machine_init) = 0x20
   \<and> cycles_sum_out (do_cmd_list psx_gpulib [0x20112233, 0, 0x10, 0x100000] pbuffer_zero 100 7
         machine_init) = 100
   \<and> cycles_last (do_cmd_list psx_gpulib [0x20112233, 0, 0x10, 0x100000] pbuffer_zero 100 7
         machine_init) = 7"
  by code_simp

text \<open>
  C9, amended: only the fill-rectangle handler touches the two cycle counters. It hands the
  running sum, the running count of the last command and
  \<open>gput_fill(U2[4] & 0x3ff, U2[5] & 0x1ff)\<close> to \<open>gput_sum\<close>; every other opcode leaves both
  counters as they are. At the exit \<open>*cycles_sum_out\<close> is increased by the running sum and
  \<open>*cycles_last\<close> is set to the running count, so a buffer of fully-formed commands without
  a fill returns both unchanged.
\<close>

theorem cycles_counted_for_fill_only:
  "(cmd \<noteq> 0x02 \<longrightarrow> cpu_cycles_sum (exec_cmd lib cmd fr) = cpu_cycles_sum fr
        \<and> cpu_cycles (exec_cmd lib cmd fr) = cpu_cycles fr)
   \<and> (cpu_cycles_sum (exec_cmd lib 0x02 fr), cpu_cycles (exec_cmd lib 0x02 fr)) =
       gput_sum lib (cpu_cycles_sum fr) (cpu_cycles fr)
         (gput_fill lib (uint (U2 (pbuffer fr) 4 AND 0x3ff)) (uint (U2 (pbuffer fr) 5 AND 0x1ff)))
   \<and> cycles_sum_out (do_cmd_list lib list pb0 sum0 last0 m) =
       sum0 + cpu_cycles_sum (snd (snd (cmd_loop lib list 0
                \<lparr> pbuffer = pb0, cpu_cycles_sum = 0, cpu_cycles = last0, mach = m \<rparr>)))
   \<and> cycles_last (do_cmd_list lib list pb0 sum0 last0 m) =
       cpu_cycles (snd (snd (cmd_loop lib list 0
                \<lparr> pbuffer = pb0, cpu_cycles_sum = 0, cpu_cycles = last0, mach = m \<rparr>)))
   \<and> (table_fits lib \<and> (\<forall>c \<in> set cmds. complete_cmd lib c \<and> opcode (hd c) \<noteq> 0x02)
      \<longrightarrow> cycles_sum_out (do_cmd_list lib (concat cmds) pb0 sum0 last0 m) = sum0
          \<and> cycles_last (do_cmd_list lib (concat cmds) pb0 sum0 last0 m) = last0)"
proof -
  have call: "cycles_sum_out (do_cmd_list lib (concat cmds) pb0 sum0 last0 m) = sum0
          \<and> cycles_last (do_cmd_list lib (concat cmds) pb0 sum0 last0 m) = last0"
    if c: "\<forall>c \<in> set cmds. complete_cmd lib c" and o: "\<forall>c \<in> set cmds. opcode (hd c) \<noteq> 0x02"
    by (simp add: do_cmd_list_complete [OF c] Let_def foldl_dispatch_cycles [OF o])
  have fill: "(cpu_cycles_sum (exec_cmd lib 0x02 fr), cpu_cycles (exec_cmd lib 0x02 fr)) =
       gput_sum lib (cpu_cycles_sum fr) (cpu_cycles fr)
         (gput_fill lib (uint (U2 (pbuffer fr) 4 AND 0x3ff)) (uint (U2 (pbuffer fr) 5 AND 0x1ff)))"
    by (simp add: exec_cmd_fill)
  have out: "cycles_sum_out (do_cmd_list lib list pb0 sum0 last0 m) =
       sum0 + cpu_cycles_sum (snd (snd (cmd_loop lib list 0
                \<lparr> pbuffer = pb0, cpu_cycles_sum = 0, cpu_cycles = last0, mach = m \<rparr>)))"
    "cycles_last (do_cmd_list lib list pb0 sum0 last0 m) =
       cpu_cycles (snd (snd (cmd_loop lib list 0
                \<lparr> pbuffer = pb0, cpu_cycles_sum = 0, cpu_cycles = last0, mach = m \<rparr>)))"
    by (simp_all add: do_cmd_list_def Let_def split_def)
  show ?thesis
    using exec_cmd_cycles_other [of cmd lib fr] fill out call by blast
qed

theorem cycles_counted_for_fill_only_witness:
  "(0x20 :: 32 word) \<noteq> 0x02
   \<and> table_fits psx_gpulib
   \<and> complete_cmd psx_gpulib [0x20112233, 0, 0x10, 0x100000]
   \<and> opcode 0x20112233 \<noteq> 0x02
   \<and> complete_cmd psx_gpulib [0xe5003ffb]
   \<and> opcode 0xe5003ffb \<noteq> 0x02
   \<and> cpu_cycles_sum (exec_cmd psx_gpulib 0x20
         \<lparr> pbuffer = pbuffer_zero, cpu_cycles_sum = 5, cpu_cycles = 7, mach = machine_init \<rparr>) = 5
   \<and> cpu_cycles (exec_cmd psx_gpulib 0x20
         \<lparr> pbuffer = pbuffer_zero, cpu_cycles_sum = 5, cpu_cycles = 7, mach = machine_init \<rparr>) = 7
   \<and> cycles_sum_out (do_cmd_list psx_gpulib
         (concat [[0x20112233, 0, 0x10, 0x100000], [0xe5003ffb]])
         pbuffer_zero 100 7 machine_init) = 100
   \<and> cycles_last (do_cmd_list psx_gpulib
         (concat [[0x20112233, 0, 0x10, 0x100000], [0xe5003ffb]])
         pbuffer_zero 100 7 machine_init) = 7"
proof -
  let ?cmds = "[[0x20112233, 0, 0x10, 0x100000], [0xe5003ffb :: 32 word]]"
  let ?fr = "\<lparr> pbuffer = pbuffer_zero, cpu_cycles_sum = 5, cpu_cycles = 7, mach = machine_init \<rparr>"
  have h: "\<forall>c \<in> set ?cmds. complete_cmd psx_gpulib c \<and> opcode (hd c) \<noteq> 0x02"
    by code_simp
  have n: "(0x20 :: 32 word) \<noteq> 0x02"
    by simp
  from cycles_counted_for_fill_only
         [of "0x20" psx_gpulib ?fr "concat ?cmds" pbuffer_zero 100 7 machine_init ?cmds]
  have "cpu_cycles_sum (exec_cmd psx_gpulib 0x20 ?fr) = cpu_cycles_sum ?fr
        \<and> cpu_cycles (exec_cmd psx_gpulib 0x20 ?fr) = cpu_cycles ?fr
        \<and> cycles_sum_out (do_cmd_list psx_gpulib (concat ?cmds) pbuffer_zero 100 7 machine_init) = 100
        \<and> cycles_last (do_cmd_list psx_gpulib (concat ?cmds) pbuffer_zero 100 7 machine_init) = 7"
    using psx_table_fits h n by blast
  then show ?thesis
    using psx_table_fits h by simp
qed

text \<open>
  C10 (empty buffer). With \<open>list_len = 0\<close> the loop body never runs: the call returns 0,
  adds 0 to \<open>*cycles_sum_out\<close>, stores \<open>*cycles_last\<close> back unchanged and sets \<open>*last_cmd\<close>
  to 0, the initial value of \<open>cmd\<close> and also the NOP opcode; \<open>pvr\<close> and the submitted packets
  are untouched (the status write-back at the end of the function still takes place).
  A buffer holding one NOP reports the same \<open>*last_cmd\<close>, provided the table gives NOP no
  operands.
\<close>

theorem empty_buffer:
  "do_cmd_list lib [] pb0 sum0 last0 m =
     \<lparr> ret = 0, cycles_sum_out = sum0, cycles_last = last0, last_cmd = 0,
       mach_out = write_back m \<rparr>
   \<and> pvr (write_back m) = pvr m \<and> ta (write_back m) = ta m
   \<and> (cmd_lengths lib 0 = 0 \<longrightarrow> last_cmd (do_cmd_list lib [0] pb0 sum0 last0 m) = 0)"
  by (simp add: do_cmd_list_def write_back_def Let_def exec_cmd_def)

theorem empty_buffer_witness:
  "cmd_lengths psx_gpulib 0 = 0
   \<and> last_cmd (do_cmd_list psx_gpulib [0] pbuffer_zero 100 7 machine_init) = 0
   \<and> last_cmd (do_cmd_list psx_gpulib [] pbuffer_zero 100 7 machine_init) = 0
   \<and> ret (do_cmd_list psx_gpulib [] pbuffer_zero 100 7 machine_init) = 0
   \<and> cycles_sum_out (do_cmd_list psx_gpulib [] pbuffer_zero 100 7 machine_init) = 100
   \<and> cycles_last (do_cmd_list psx_gpulib [] pbuffer_zero 100 7 machine_init) = 7"
proof -
  have h: "cmd_lengths psx_gpulib 0 = 0"
    by (simp add: psx_gpulib_def psx_lengths_def)
  from empty_buffer [of psx_gpulib pbuffer_zero 100 7 machine_init] h
  show ?thesis by simp
qed

end
